theory Spec2Isabelle
  imports Complex_Main "HOL-Library.Multiset" "HOL-Library.Sublist" "HOL-Library.List_Lexorder"
begin

section \<open>Strings, field values and documents\<close>

text \<open>
  A JavaScript string is modelled as the list of its Unicode code points. The document
  store orders strings by their UTF-8 bytes, which is the lexicographic order of the
  code points; this is the order \<open>\<le>\<close> on lists. String literals of the source are
  written \<open>ustr ''...''\<close>.

  \<open>String.prototype.toLowerCase\<close> is a builtin of the language and not part of the
  repository. Every operation that calls it takes it as the parameter \<open>lc\<close>, so the
  theorems hold for whatever the runtime computes. \<open>toLowerCase_ascii\<close> is the
  restriction of the builtin to strings whose only cased characters are A-Z; it is used
  for concrete runs only.
\<close>

type_synonym ustring = "nat list"

definition ustr :: "string \<Rightarrow> ustring" where
  "ustr s = map of_char s"

definition toLowerCase_ascii :: "ustring \<Rightarrow> ustring" where
  "toLowerCase_ascii s = map (\<lambda>c. if 65 \<le> c \<and> c \<le> 90 then c + 32 else c) s"

text \<open>The character U+F8FF that \<open>getCollectionWithOptions\<close> appends to the upper bound.\<close>

definition uf8ff :: nat where
  "uf8ff = 63743"

text \<open>
  Field values. The product documents hold strings, numbers and \<open>null\<close>. A JavaScript
  number is modelled as a rational (every finite double is one, and the comparisons of
  the store are exact on them). Across types the store orders \<open>null\<close> first, then
  numbers, then strings.
\<close>

datatype fvalue = VNull | VNum rat | VStr ustring

instantiation fvalue :: linorder
begin

fun less_eq_fvalue :: "fvalue \<Rightarrow> fvalue \<Rightarrow> bool" where
  "less_eq_fvalue VNull y = True"
| "less_eq_fvalue (VNum a) VNull = False"
| "less_eq_fvalue (VNum a) (VNum b) = (a \<le> b)"
| "less_eq_fvalue (VNum a) (VStr t) = True"
| "less_eq_fvalue (VStr s) VNull = False"
| "less_eq_fvalue (VStr s) (VNum b) = False"
| "less_eq_fvalue (VStr s) (VStr t) = (s \<le> t)"

definition less_fvalue :: "fvalue \<Rightarrow> fvalue \<Rightarrow> bool" where
  "less_fvalue x y = (x \<le> y \<and> \<not> y \<le> x)"

instance
proof
  fix x y z :: fvalue
  show "(x < y) = (x \<le> y \<and> \<not> y \<le> x)"
    by (simp add: less_fvalue_def)
  show "x \<le> x"
    by (cases x) simp_all
  show "x \<le> y \<Longrightarrow> y \<le> z \<Longrightarrow> x \<le> z"
    by (cases x; cases y; cases z) auto
  show "x \<le> y \<Longrightarrow> y \<le> x \<Longrightarrow> x = y"
    by (cases x; cases y) auto
  show "x \<le> y \<or> y \<le> x"
    by (cases x; cases y) auto
qed

end

text \<open>A document is a flat map from field names to values; an object spread
  \<open>{...a, ...b}\<close> is \<open>a ++ b\<close>.\<close>

type_synonym document = "ustring \<rightharpoonup> fvalue"

section \<open>Exceptions\<close>

text \<open>The exceptions the services throw, each with its message. A function that can
  throw returns \<open>HttpException + 'a\<close>.\<close>

datatype HttpException =
    BadRequestException ustring
  | UnauthorizedException ustring
  | ForbiddenException ustring
  | NotFoundException ustring
  | InternalServerErrorException ustring

section \<open>The document store\<close>

text \<open>
  The store is an external system; the model keeps what the adapter relies on.
  \<^item> \<open>colls\<close>: each collection is the list of its documents with their ids, in the
    store's native order (ascending id). A collection that was never written is empty.
  \<^item> \<open>calls\<close>: the requests sent to the store so far, oldest first.
  \<^item> \<open>faults\<close>: what the transport will do to the coming requests: the head decides the
    next request, \<open>Some m\<close> makes it fail with message \<open>m\<close>, \<open>None\<close> lets it through;
    an empty list means no further failure.
\<close>

datatype store_call =
    DocGet ustring ustring
  | DocAdd ustring
  | DocUpdate ustring ustring
  | DocDelete ustring ustring
  | QueryGet ustring

record firestore =
  colls :: "ustring \<Rightarrow> (ustring \<times> document) list"
  calls :: "store_call list"
  faults :: "ustring option list"

definition send :: "firestore \<Rightarrow> store_call \<Rightarrow> ustring option \<times> firestore" where
  "send s c =
     (case faults s of
        [] \<Rightarrow> (None, s\<lparr>calls := calls s @ [c]\<rparr>)
      | f # fs \<Rightarrow> (f, s\<lparr>calls := calls s @ [c], faults := fs\<rparr>))"

text \<open>\<open>db.collection(c).doc(i).get()\<close>: the snapshot, \<open>None\<close> when the document does not exist.\<close>

definition doc_get ::
  "firestore \<Rightarrow> ustring \<Rightarrow> ustring \<Rightarrow> (ustring + document option) \<times> firestore" where
  "doc_get s c i =
     (case send s (DocGet c i) of
        (Some m, s1) \<Rightarrow> (Inl m, s1)
      | (None, s1) \<Rightarrow> (Inr (map_of (colls s c) i), s1))"

text \<open>\<open>db.collection(c).add(data)\<close>: the store picks the id \<open>nid\<close> of the new document,
  one that the collection does not hold yet, and files the document by it.\<close>

definition doc_add ::
  "firestore \<Rightarrow> ustring \<Rightarrow> ustring \<Rightarrow> document \<Rightarrow> (ustring + ustring) \<times> firestore" where
  "doc_add s nid c data =
     (case send s (DocAdd c) of
        (Some m, s1) \<Rightarrow> (Inl m, s1)
      | (None, s1) \<Rightarrow>
          (Inr nid, s1\<lparr>colls := (colls s1)(c := insort_key fst (nid, data) (colls s1 c))\<rparr>))"

text \<open>\<open>db.collection(c).doc(i).update(data)\<close>: the client refuses an update without any
  field, throwing before it sends a request. Otherwise the top-level fields of \<open>data\<close>
  replace those of the stored document, the others stay; the request fails on a missing
  document.\<close>

definition empty_update_message :: ustring where
  "empty_update_message = ustr ''At least one field must be updated.''"

definition doc_update ::
  "firestore \<Rightarrow> ustring \<Rightarrow> ustring \<Rightarrow> document \<Rightarrow> (ustring + unit) \<times> firestore" where
  "doc_update s c i data =
     (if data = Map.empty then (Inl empty_update_message, s)
      else
        (case send s (DocUpdate c i) of
           (Some m, s1) \<Rightarrow> (Inl m, s1)
         | (None, s1) \<Rightarrow>
             (case map_of (colls s1 c) i of
                None \<Rightarrow> (Inl (ustr ''NOT_FOUND: No document to update''), s1)
              | Some _ \<Rightarrow>
                  (Inr (), s1\<lparr>colls := (colls s1)
                     (c := map (\<lambda>(j, d). if j = i then (j, d ++ data) else (j, d))
                             (colls s1 c))\<rparr>))))"

text \<open>\<open>db.collection(c).doc(i).delete()\<close>: succeeds also when there is nothing to delete.\<close>

definition doc_delete ::
  "firestore \<Rightarrow> ustring \<Rightarrow> ustring \<Rightarrow> (ustring + unit) \<times> firestore" where
  "doc_delete s c i =
     (case send s (DocDelete c i) of
        (Some m, s1) \<Rightarrow> (Inl m, s1)
      | (None, s1) \<Rightarrow>
          (Inr (), s1\<lparr>colls := (colls s1)(c := filter (\<lambda>(j, d). j \<noteq> i) (colls s1 c))\<rparr>))"

section \<open>FirestoreService: documents by id\<close>

text \<open>\<open>{ id: doc.id, ...doc.data() }\<close>\<close>

definition with_id :: "ustring \<Rightarrow> document \<Rightarrow> document" where
  "with_id i d = [ustr ''id'' \<mapsto> VStr i] ++ d"

definition addDocument ::
  "firestore \<Rightarrow> ustring \<Rightarrow> ustring \<Rightarrow> document \<Rightarrow> (HttpException + ustring) \<times> firestore" where
  "addDocument s nid collection data =
     (case doc_add s nid collection data of
        (Inl m, s1) \<Rightarrow> (Inl (InternalServerErrorException (ustr ''Database error: '' @ m)), s1)
      | (Inr docRef_id, s1) \<Rightarrow> (Inr docRef_id, s1))"

definition getDocument ::
  "firestore \<Rightarrow> ustring \<Rightarrow> ustring \<Rightarrow> (HttpException + document option) \<times> firestore" where
  "getDocument s collection i =
     (case doc_get s collection i of
        (Inl m, s1) \<Rightarrow> (Inl (InternalServerErrorException (ustr ''Database error: '' @ m)), s1)
      | (Inr None, s1) \<Rightarrow> (Inr None, s1)
      | (Inr (Some d), s1) \<Rightarrow> (Inr (Some (with_id i d)), s1))"

definition updateDocument ::
  "firestore \<Rightarrow> ustring \<Rightarrow> ustring \<Rightarrow> document \<Rightarrow> (HttpException + unit) \<times> firestore" where
  "updateDocument s collection i data =
     (case doc_get s collection i of
        (Inl m, s1) \<Rightarrow> (Inl (InternalServerErrorException (ustr ''Database error: '' @ m)), s1)
      | (Inr None, s1) \<Rightarrow>
          (Inl (NotFoundException
             (ustr ''Document with ID '' @ i @ ustr '' not found in collection '' @ collection)), s1)
      | (Inr (Some _), s1) \<Rightarrow>
          (case doc_update s1 collection i data of
             (Inl m, s2) \<Rightarrow>
               (Inl (InternalServerErrorException (ustr ''Database error: '' @ m)), s2)
           | (Inr _, s2) \<Rightarrow> (Inr (), s2)))"

definition deleteDocument ::
  "firestore \<Rightarrow> ustring \<Rightarrow> ustring \<Rightarrow> (HttpException + unit) \<times> firestore" where
  "deleteDocument s collection i =
     (case doc_get s collection i of
        (Inl m, s1) \<Rightarrow> (Inl (InternalServerErrorException (ustr ''Database error: '' @ m)), s1)
      | (Inr None, s1) \<Rightarrow>
          (Inl (NotFoundException
             (ustr ''Document with ID '' @ i @ ustr '' not found in collection '' @ collection)), s1)
      | (Inr (Some _), s1) \<Rightarrow>
          (case doc_delete s1 collection i of
             (Inl m, s2) \<Rightarrow>
               (Inl (InternalServerErrorException (ustr ''Database error: '' @ m)), s2)
           | (Inr _, s2) \<Rightarrow> (Inr (), s2)))"

section \<open>ProductService: create, findOne, update, remove\<close>

text \<open>
  \<open>CreateProductDto\<close> as the class declares it, the optional \<open>nameSearch\<close> included.
  \<open>UpdateProductDto\<close> is \<open>PartialType(CreateProductDto)\<close>: every property optional.
  A property of an update body is absent, or \<open>null\<close> (which the JSON of a request can
  carry and the optional properties admit), or present with a value. The spread of a DTO
  holds the properties that are not absent, a \<open>null\<close> one with the value \<open>null\<close>.
\<close>

datatype 'a field = Absent | Null | Present 'a

fun prop_value :: "('a \<Rightarrow> fvalue) \<Rightarrow> 'a field \<Rightarrow> fvalue option" where
  "prop_value f Absent = None"
| "prop_value f Null = Some VNull"
| "prop_value f (Present x) = Some (f x)"

record CreateProductDto =
  nameSearch :: "ustring option"
  name :: ustring
  description :: ustring
  price :: int
  stock :: int
  category :: ustring

record UpdateProductDto =
  nameSearch :: "ustring field"
  name :: "ustring field"
  description :: "ustring field"
  price :: "int field"
  stock :: "int field"
  category :: "ustring field"

definition opt_field :: "ustring \<Rightarrow> fvalue option \<Rightarrow> document" where
  "opt_field k v = (case v of None \<Rightarrow> Map.empty | Some x \<Rightarrow> [k \<mapsto> x])"

definition spread_create :: "CreateProductDto \<Rightarrow> document" where
  "spread_create dto =
     opt_field (ustr ''nameSearch'') (map_option VStr (CreateProductDto.nameSearch dto))
     ++ [ustr ''name'' \<mapsto> VStr (CreateProductDto.name dto)]
     ++ [ustr ''description'' \<mapsto> VStr (CreateProductDto.description dto)]
     ++ [ustr ''price'' \<mapsto> VNum (of_int (CreateProductDto.price dto))]
     ++ [ustr ''stock'' \<mapsto> VNum (of_int (CreateProductDto.stock dto))]
     ++ [ustr ''category'' \<mapsto> VStr (CreateProductDto.category dto)]"

definition spread_update :: "UpdateProductDto \<Rightarrow> document" where
  "spread_update dto =
     opt_field (ustr ''nameSearch'') (prop_value VStr (UpdateProductDto.nameSearch dto))
     ++ opt_field (ustr ''name'') (prop_value VStr (UpdateProductDto.name dto))
     ++ opt_field (ustr ''description'') (prop_value VStr (UpdateProductDto.description dto))
     ++ opt_field (ustr ''price'') (prop_value (\<lambda>p. VNum (of_int p)) (UpdateProductDto.price dto))
     ++ opt_field (ustr ''stock'') (prop_value (\<lambda>p. VNum (of_int p)) (UpdateProductDto.stock dto))
     ++ opt_field (ustr ''category'') (prop_value VStr (UpdateProductDto.category dto))"

definition products :: ustring where
  "products = ustr ''products''"

text \<open>\<open>create\<close>; \<open>nid\<close> is the id the store assigns to the new document.\<close>

definition create ::
  "(ustring \<Rightarrow> ustring) \<Rightarrow> firestore \<Rightarrow> ustring \<Rightarrow> CreateProductDto
     \<Rightarrow> (HttpException + document) \<times> firestore" where
  "create lc s nid createProductDto =
     (let dataWithSearchFields =
            spread_create createProductDto
            ++ [ustr ''nameSearch'' \<mapsto> VStr (lc (CreateProductDto.name createProductDto))]
      in case addDocument s nid products dataWithSearchFields of
           (Inl e, s1) \<Rightarrow> (Inl e, s1)
         | (Inr productId, s1) \<Rightarrow>
             (Inr ([ustr ''id'' \<mapsto> VStr productId] ++ spread_create createProductDto), s1))"

definition findOne :: "firestore \<Rightarrow> ustring \<Rightarrow> (HttpException + document) \<times> firestore" where
  "findOne s i =
     (case getDocument s products i of
        (Inl e, s1) \<Rightarrow> (Inl e, s1)
      | (Inr None, s1) \<Rightarrow>
          (Inl (NotFoundException (ustr ''Product with ID '' @ i @ ustr '' not found'')), s1)
      | (Inr (Some product), s1) \<Rightarrow> (Inr product, s1))"


definition dataToUpdate :: "(ustring \<Rightarrow> ustring) \<Rightarrow> UpdateProductDto \<Rightarrow> document" where
  "dataToUpdate lc updateProductDto =
     (case UpdateProductDto.name updateProductDto of
        Absent \<Rightarrow> spread_update updateProductDto
      | Null \<Rightarrow> spread_update updateProductDto
      | Present n \<Rightarrow>
          if n \<noteq> []
          then spread_update updateProductDto ++ [ustr ''nameSearch'' \<mapsto> VStr (lc n)]
          else spread_update updateProductDto)"

definition update ::
  "(ustring \<Rightarrow> ustring) \<Rightarrow> firestore \<Rightarrow> ustring \<Rightarrow> UpdateProductDto
     \<Rightarrow> (HttpException + document) \<times> firestore" where
  "update lc s i updateProductDto =
     (case getDocument s products i of
        (Inl e, s1) \<Rightarrow> (Inl e, s1)
      | (Inr None, s1) \<Rightarrow>
          (Inl (NotFoundException (ustr ''Product with ID '' @ i @ ustr '' not found'')), s1)
      | (Inr (Some product), s1) \<Rightarrow>
          (case updateDocument s1 products i (dataToUpdate lc updateProductDto) of
             (Inl e, s2) \<Rightarrow> (Inl e, s2)
           | (Inr _, s2) \<Rightarrow>
               (Inr ([ustr ''id'' \<mapsto> VStr i] ++ product ++ spread_update updateProductDto),
                s2)))"

text \<open>\<open>remove\<close> returns \<open>{ id, deleted: true }\<close>, here the pair of the two.\<close>

definition remove :: "firestore \<Rightarrow> ustring \<Rightarrow> (HttpException + ustring \<times> bool) \<times> firestore" where
  "remove s i =
     (case getDocument s products i of
        (Inl e, s1) \<Rightarrow> (Inl e, s1)
      | (Inr None, s1) \<Rightarrow>
          (Inl (NotFoundException (ustr ''Product with ID '' @ i @ ustr '' not found'')), s1)
      | (Inr (Some product), s1) \<Rightarrow>
          (case deleteDocument s1 products i of
             (Inl e, s2) \<Rightarrow> (Inl e, s2)
           | (Inr _, s2) \<Rightarrow> (Inr (i, True), s2)))"

section \<open>The store's queries\<close>

text \<open>
  A query value as the builder calls \<open>where\<close>, \<open>orderBy\<close>, \<open>limit\<close> and \<open>offset\<close>
  leave it; the adapter calls \<open>orderBy\<close> at most once. The store answers a query as
  follows: a \<open>where\<close> clause holds of a document that has the field, with a value equal
  to the operand for \<open>==\<close>, and of the operand's type and in the given order to it for
  \<open>>=\<close> and \<open><=\<close>; an \<open>orderBy\<close> keeps the documents that have the field and sorts them
  stably from the native order (descending is the reverse); then the offset is skipped
  and the limit taken.

  \<open>orderBy\<close> takes a field path and checks it before anything is sent: a path that is
  empty, contains two dots in a row, starts or ends with a dot, or contains one of the
  characters \<open>*~/[]\<close> makes it throw. The path \<open>__name__\<close> stands for the id of the
  document. A path with a dot names a field inside a map; the values of this model are
  null, numbers and strings, so no document has such a field. \<open>where\<close> checks its path
  in the same way; the adapter calls it with \<open>nameSearch\<close>, \<open>price\<close> and the keys of the
  filters, which for \<open>findAll\<close> is \<open>category\<close>, and these pass.
\<close>

datatype WhereFilterOp = OpGE | OpLE | OpEQ

datatype SortOrder = ASC | DESC

record Query =
  q_collection :: ustring
  q_where :: "(ustring \<times> WhereFilterOp \<times> fvalue) list"
  q_orderBy :: "(ustring \<times> SortOrder) option"
  q_limit :: "int option"
  q_offset :: "int option"

definition collection_query :: "ustring \<Rightarrow> Query" where
  "collection_query c =
     \<lparr>q_collection = c, q_where = [], q_orderBy = None, q_limit = None, q_offset = None\<rparr>"

definition where_clause :: "Query \<Rightarrow> ustring \<Rightarrow> WhereFilterOp \<Rightarrow> fvalue \<Rightarrow> Query" where
  "where_clause q f ope v = q\<lparr>q_where := q_where q @ [(f, ope, v)]\<rparr>"

definition full_stop :: nat where
  "full_stop = 46"

fun has_double_dot :: "ustring \<Rightarrow> bool" where
  "has_double_dot (a # b # cs) = ((a = full_stop \<and> b = full_stop) \<or> has_double_dot (b # cs))"
| "has_double_dot [a] = False"
| "has_double_dot [] = False"

definition invalid_field_path :: ustring where
  "invalid_field_path =
     ustr ''Value for argument '' @ [34] @ ustr ''fieldPath'' @ [34]
       @ ustr '' is not a valid field path. ''"

definition double_dot_message :: ustring where
  "double_dot_message =
     invalid_field_path @ ustr ''Paths must not contain '' @ [34] @ ustr ''..'' @ [34]
       @ ustr '' in them.''"

definition outer_dot_message :: ustring where
  "outer_dot_message =
     invalid_field_path @ ustr ''Paths must not start or end with '' @ [34] @ ustr ''.''
       @ [34] @ ustr ''.''"

definition reserved_character_message :: ustring where
  "reserved_character_message =
     invalid_field_path @ ustr ''Paths can'' @ [39]
       @ ustr ''t be empty and must not contain '' @ [34] @ ustr ''*~/[]'' @ [34]
       @ ustr ''.''"

definition validateFieldPath :: "ustring \<Rightarrow> ustring option" where
  "validateFieldPath p =
     (if has_double_dot p then Some double_dot_message
      else if p \<noteq> [] \<and> (hd p = full_stop \<or> last p = full_stop) then Some outer_dot_message
      else if p = [] \<or> list_ex (\<lambda>c. c \<in> set (ustr ''*~/[]'')) p
        then Some reserved_character_message
      else None)"

definition orderBy :: "Query \<Rightarrow> ustring \<Rightarrow> SortOrder \<Rightarrow> ustring + Query" where
  "orderBy q f dir =
     (case validateFieldPath f of
        Some m \<Rightarrow> Inl m
      | None \<Rightarrow> Inr (q\<lparr>q_orderBy := Some (f, dir)\<rparr>))"

definition limit_to :: "Query \<Rightarrow> int \<Rightarrow> Query" where
  "limit_to q n = q\<lparr>q_limit := Some n\<rparr>"

definition offset_by :: "Query \<Rightarrow> int \<Rightarrow> Query" where
  "offset_by q n = q\<lparr>q_offset := Some n\<rparr>"

fun same_type :: "fvalue \<Rightarrow> fvalue \<Rightarrow> bool" where
  "same_type VNull VNull = True"
| "same_type (VNum a) (VNum b) = True"
| "same_type (VStr a) (VStr b) = True"
| "same_type VNull (VNum b) = False"
| "same_type VNull (VStr b) = False"
| "same_type (VNum a) VNull = False"
| "same_type (VNum a) (VStr b) = False"
| "same_type (VStr a) VNull = False"
| "same_type (VStr a) (VNum b) = False"

fun holds :: "document \<Rightarrow> ustring \<times> WhereFilterOp \<times> fvalue \<Rightarrow> bool" where
  "holds d (f, ope, v) =
     (case d f of
        None \<Rightarrow> False
      | Some x \<Rightarrow>
          (case ope of
             OpEQ \<Rightarrow> x = v
           | OpGE \<Rightarrow> same_type x v \<and> v \<le> x
           | OpLE \<Rightarrow> same_type x v \<and> x \<le> v))"

definition matching :: "Query \<Rightarrow> (ustring \<times> document) list \<Rightarrow> (ustring \<times> document) list" where
  "matching q docs = filter (\<lambda>(i, d). list_all (holds d) (q_where q)) docs"

definition field_at :: "ustring \<Rightarrow> ustring \<times> document \<Rightarrow> fvalue option" where
  "field_at p doc =
     (if p = ustr ''__name__'' then Some (VStr (fst doc))
      else if full_stop \<in> set p then None
      else snd doc p)"

definition ordered :: "Query \<Rightarrow> (ustring \<times> document) list \<Rightarrow> (ustring \<times> document) list" where
  "ordered q docs =
     (case q_orderBy q of
        None \<Rightarrow> docs
      | Some (f, dir) \<Rightarrow>
          (let sorted_docs = sort_key (\<lambda>doc. the (field_at f doc))
                               (filter (\<lambda>doc. field_at f doc \<noteq> None) docs)
           in case dir of ASC \<Rightarrow> sorted_docs | DESC \<Rightarrow> rev sorted_docs))"

definition paged :: "Query \<Rightarrow> (ustring \<times> document) list \<Rightarrow> (ustring \<times> document) list" where
  "paged q docs =
     (let skipped = (case q_offset q of None \<Rightarrow> docs | Some k \<Rightarrow> drop (nat k) docs)
      in case q_limit q of None \<Rightarrow> skipped | Some n \<Rightarrow> take (nat n) skipped)"

text \<open>\<open>query.get()\<close>: one request to the store, answered with the snapshot's documents.\<close>

definition query_get ::
  "firestore \<Rightarrow> Query \<Rightarrow> (ustring + (ustring \<times> document) list) \<times> firestore" where
  "query_get s q =
     (case send s (QueryGet (q_collection q)) of
        (Some m, s1) \<Rightarrow> (Inl m, s1)
      | (None, s1) \<Rightarrow> (Inr (paged q (ordered q (matching q (colls s (q_collection q))))), s1))"

section \<open>FirestoreService.getCollectionWithOptions\<close>

text \<open>The options object; an absent property is \<open>None\<close> and takes the default of the
  destructuring. A filter value \<open>None\<close> is \<open>undefined\<close>, and \<open>Some VNull\<close> is \<open>null\<close>.\<close>

record CollectionOptions =
  page :: "int option"
  limit :: "int option"
  filters :: "(ustring \<times> fvalue option) list option"
  sortBy :: "ustring option"
  sortOrder :: "SortOrder option"

definition or_default :: "'a option \<Rightarrow> 'a \<Rightarrow> 'a" where
  "or_default v d = (case v of None \<Rightarrow> d | Some x \<Rightarrow> x)"

fun is_string :: "fvalue \<Rightarrow> bool" where
  "is_string (VStr a) = True"
| "is_string (VNum a) = False"
| "is_string VNull = False"

fun is_number :: "fvalue \<Rightarrow> bool" where
  "is_number (VNum a) = True"
| "is_number (VStr a) = False"
| "is_number VNull = False"

fun string_of :: "fvalue \<Rightarrow> ustring" where
  "string_of (VStr a) = a"
| "string_of (VNum a) = []"
| "string_of VNull = []"

text \<open>The body of the \<open>forEach\<close> over the entries of \<open>filters\<close>; \<open>is_string\<close> and
  \<open>is_number\<close> are the two \<open>typeof\<close> tests.\<close>

definition apply_filter ::
  "(ustring \<Rightarrow> ustring) \<Rightarrow> Query \<Rightarrow> ustring \<times> fvalue option \<Rightarrow> Query" where
  "apply_filter lc query entry =
     (case entry of
        (key, None) \<Rightarrow> query
      | (key, Some v) \<Rightarrow>
          if v = VNull then query
          else if key = ustr ''name'' \<and> is_string v then
            (let lowerCaseValue = lc (string_of v)
             in where_clause
                  (where_clause query (ustr ''nameSearch'') OpGE (VStr lowerCaseValue))
                  (ustr ''nameSearch'') OpLE (VStr (lowerCaseValue @ [uf8ff])))
          else if key = ustr ''minPrice'' \<and> is_number v then
            where_clause query (ustr ''price'') OpGE v
          else if key = ustr ''maxPrice'' \<and> is_number v then
            where_clause query (ustr ''price'') OpLE v
          else where_clause query key OpEQ v)"

definition invalid_pagination :: ustring where
  "invalid_pagination =
     ustr ''Invalid pagination parameters. Page must be >= 1 and limit must be between 1 and 100.''"

definition getCollectionWithOptions ::
  "(ustring \<Rightarrow> ustring) \<Rightarrow> firestore \<Rightarrow> ustring \<Rightarrow> CollectionOptions
     \<Rightarrow> (HttpException + document list \<times> int) \<times> firestore" where
  "getCollectionWithOptions lc s collection options =
     (let page = or_default (CollectionOptions.page options) 1;
          limit = or_default (CollectionOptions.limit options) 10;
          filters = or_default (CollectionOptions.filters options) [];
          sortBy = or_default (CollectionOptions.sortBy options) (ustr ''name'');
          sortOrder = or_default (CollectionOptions.sortOrder options) ASC
      in if page < 1 \<or> limit < 1 \<or> limit > 100
         then (Inl (BadRequestException invalid_pagination), s)
         else
           (let query = foldl (apply_filter lc) (collection_query collection) filters
            in case query_get s query of
                 (Inl m, s1) \<Rightarrow>
                   (Inl (InternalServerErrorException (ustr ''Database query error: '' @ m)), s1)
               | (Inr countSnapshot, s1) \<Rightarrow>
                   (let total = int (length countSnapshot)
                    in case (if sortBy \<noteq> []
                             then orderBy query sortBy (if sortOrder = DESC then DESC else ASC)
                             else Inr query) of
                         Inl m \<Rightarrow>
                           (Inl (InternalServerErrorException
                              (ustr ''Database query error: '' @ m)), s1)
                       | Inr query1 \<Rightarrow>
                           (let offset = (page - 1) * limit;
                                query2 = limit_to query1 limit;
                                query3 = (if offset > 0 then offset_by query2 offset
                                          else query2)
                            in case query_get s1 query3 of
                                 (Inl m, s2) \<Rightarrow>
                                   (Inl (InternalServerErrorException
                                      (ustr ''Database query error: '' @ m)), s2)
                               | (Inr snapshot, s2) \<Rightarrow>
                                   (Inr (map (\<lambda>(i, d). with_id i d) snapshot, total),
                                    s2)))))"

section \<open>ProductService.findAll\<close>

record QueryProductDto =
  page :: "int option"
  limit :: "int option"
  name :: "ustring option"
  category :: "ustring option"
  minPrice :: "rat option"
  maxPrice :: "rat option"
  sortBy :: "ustring option"
  sortOrder :: "SortOrder option"

record PaginatedProductsResponseDto =
  items :: "document list"
  total :: int
  page :: int
  limit :: int
  totalPages :: int
  hasNextPage :: bool
  hasPreviousPage :: bool

text \<open>\<open>if (name)\<close>: a string that is present and not empty.\<close>

definition truthy :: "ustring option \<Rightarrow> bool" where
  "truthy v = (case v of None \<Rightarrow> False | Some x \<Rightarrow> x \<noteq> [])"

definition build_filters :: "QueryProductDto \<Rightarrow> (ustring \<times> fvalue option) list" where
  "build_filters query =
     (if truthy (QueryProductDto.name query)
        then [(ustr ''name'', map_option VStr (QueryProductDto.name query))] else [])
     @ (if truthy (QueryProductDto.category query)
        then [(ustr ''category'', map_option VStr (QueryProductDto.category query))] else [])
     @ (if minPrice query \<noteq> None
        then [(ustr ''minPrice'', map_option VNum (minPrice query))] else [])
     @ (if maxPrice query \<noteq> None
        then [(ustr ''maxPrice'', map_option VNum (maxPrice query))] else [])"

text \<open>\<open>Math.ceil(total / limit)\<close>\<close>

definition Math_ceil_div :: "int \<Rightarrow> int \<Rightarrow> int" where
  "Math_ceil_div a b = \<lceil>rat_of_int a / rat_of_int b\<rceil>"

definition findAll ::
  "(ustring \<Rightarrow> ustring) \<Rightarrow> firestore \<Rightarrow> QueryProductDto
     \<Rightarrow> (HttpException + PaginatedProductsResponseDto) \<times> firestore" where
  "findAll lc s query =
     (let page = or_default (QueryProductDto.page query) 1;
          limit = or_default (QueryProductDto.limit query) 10;
          filters = build_filters query
      in case getCollectionWithOptions lc s products
                \<lparr>CollectionOptions.page = Some page, limit = Some limit, filters = Some filters,
                 sortBy = QueryProductDto.sortBy query,
                 sortOrder = QueryProductDto.sortOrder query\<rparr> of
           (Inl e, s1) \<Rightarrow> (Inl e, s1)
         | (Inr (its, tot), s1) \<Rightarrow>
             (let pages = Math_ceil_div tot limit
              in (Inr \<lparr>items = its, total = tot, page = page, limit = limit,
                       totalPages = pages,
                       hasNextPage = (page < pages),
                       hasPreviousPage = (page > 1)\<rparr>, s1)))"

section \<open>ProductController: the validation pipe in front of the service\<close>

text \<open>
  \<open>POST /products\<close> and \<open>PATCH /products/:id\<close> run the request body through a
  \<open>ValidationPipe\<close> with \<open>whitelist: true\<close> before the service sees it. The pipe checks
  the decorators of the DTO class and removes every property that carries none;
  \<open>nameSearch\<close> is the one such property. A rejected body is answered with a
  \<open>BadRequestException\<close>, and the service is not called. On \<open>PATCH\<close> a property that
  is missing or \<open>null\<close> is not checked.
\<close>

definition categories :: "ustring list" where
  "categories = map ustr [''Electronics'', ''Clothing'', ''Books'', ''Furniture'', ''Sports'',
     ''Beauty'', ''Home & Kitchen'', ''Health & Beauty'', ''Toys'', ''Others'']"

text \<open>The length that \<open>MinLength\<close> and \<open>MaxLength\<close> compare: the code points of the
  string, the variation selectors U+FE0E and U+FE0F not counted.\<close>

definition validator_length :: "ustring \<Rightarrow> nat" where
  "validator_length t = length (filter (\<lambda>c. c \<noteq> 65038 \<and> c \<noteq> 65039) t)"

definition valid_name :: "ustring \<Rightarrow> bool" where
  "valid_name n = (n \<noteq> [] \<and> 3 \<le> validator_length n \<and> validator_length n \<le> 100)"

definition valid_description :: "ustring \<Rightarrow> bool" where
  "valid_description t =
     (t \<noteq> [] \<and> 10 \<le> validator_length t \<and> validator_length t \<le> 1000)"

definition valid_price :: "int \<Rightarrow> bool" where
  "valid_price p = (0 < p \<and> p \<le> 1000000)"

definition valid_stock :: "int \<Rightarrow> bool" where
  "valid_stock k = (0 \<le> k \<and> k \<le> 10000)"

definition valid_category :: "ustring \<Rightarrow> bool" where
  "valid_category c = (c \<in> set categories \<and> c \<noteq> [])"

definition validate_create :: "CreateProductDto \<Rightarrow> bool" where
  "validate_create dto =
     (valid_name (CreateProductDto.name dto)
      \<and> valid_description (CreateProductDto.description dto)
      \<and> valid_price (CreateProductDto.price dto)
      \<and> valid_stock (CreateProductDto.stock dto)
      \<and> valid_category (CreateProductDto.category dto))"

text \<open>\<open>IsOptional\<close>: a property that is absent or \<open>null\<close> is not checked.\<close>

definition if_present :: "('a \<Rightarrow> bool) \<Rightarrow> 'a field \<Rightarrow> bool" where
  "if_present P v = (case v of Absent \<Rightarrow> True | Null \<Rightarrow> True | Present x \<Rightarrow> P x)"

definition validate_update :: "UpdateProductDto \<Rightarrow> bool" where
  "validate_update dto =
     (if_present valid_name (UpdateProductDto.name dto)
      \<and> if_present valid_description (UpdateProductDto.description dto)
      \<and> if_present valid_price (UpdateProductDto.price dto)
      \<and> if_present valid_stock (UpdateProductDto.stock dto)
      \<and> if_present valid_category (UpdateProductDto.category dto))"

definition whitelist_create :: "CreateProductDto \<Rightarrow> CreateProductDto" where
  "whitelist_create dto = dto\<lparr>CreateProductDto.nameSearch := None\<rparr>"

definition whitelist_update :: "UpdateProductDto \<Rightarrow> UpdateProductDto" where
  "whitelist_update dto = dto\<lparr>UpdateProductDto.nameSearch := Absent\<rparr>"

definition validation_failed :: HttpException where
  "validation_failed = BadRequestException (ustr ''Bad Request Exception'')"

definition ProductController_create ::
  "(ustring \<Rightarrow> ustring) \<Rightarrow> firestore \<Rightarrow> ustring \<Rightarrow> CreateProductDto
     \<Rightarrow> (HttpException + document) \<times> firestore" where
  "ProductController_create lc s nid body =
     (if validate_create body then create lc s nid (whitelist_create body)
      else (Inl validation_failed, s))"

definition ProductController_update ::
  "(ustring \<Rightarrow> ustring) \<Rightarrow> firestore \<Rightarrow> ustring \<Rightarrow> UpdateProductDto
     \<Rightarrow> (HttpException + document) \<times> firestore" where
  "ProductController_update lc s i body =
     (if validate_update body then update lc s i (whitelist_update body)
      else (Inl validation_failed, s))"

section \<open>What the list operation is to return\<close>

text \<open>
  The filter of the list operation in the words of the specification: the conjunction of
  the filters that are present. A name or category that is the empty string counts as
  absent. The name filter compares the stored lowercase name with the range from the
  lowercased filter to the lowercased filter followed by the sentinel, both bounds
  included; category is equality; the price bounds are inclusive. \<open>sorted_by\<close> says
  that a list of documents is in the order of a field, ascending or descending.
\<close>

definition name_filter :: "(ustring \<Rightarrow> ustring) \<Rightarrow> ustring \<Rightarrow> document \<Rightarrow> bool" where
  "name_filter lc f d =
     (case d (ustr ''nameSearch'') of
        Some (VStr t) \<Rightarrow> lc f \<le> t \<and> t \<le> lc f @ [uf8ff]
      | _ \<Rightarrow> False)"

definition price_at_least :: "rat \<Rightarrow> document \<Rightarrow> bool" where
  "price_at_least m d = (case d (ustr ''price'') of Some (VNum p) \<Rightarrow> m \<le> p | _ \<Rightarrow> False)"

definition price_at_most :: "rat \<Rightarrow> document \<Rightarrow> bool" where
  "price_at_most m d = (case d (ustr ''price'') of Some (VNum p) \<Rightarrow> p \<le> m | _ \<Rightarrow> False)"

definition selected :: "(ustring \<Rightarrow> ustring) \<Rightarrow> QueryProductDto \<Rightarrow> document \<Rightarrow> bool" where
  "selected lc q d =
     ((case QueryProductDto.name q of None \<Rightarrow> True | Some f \<Rightarrow> f = [] \<or> name_filter lc f d)
      \<and> (case QueryProductDto.category q of
            None \<Rightarrow> True | Some c \<Rightarrow> c = [] \<or> d (ustr ''category'') = Some (VStr c))
      \<and> (case minPrice q of None \<Rightarrow> True | Some m \<Rightarrow> price_at_least m d)
      \<and> (case maxPrice q of None \<Rightarrow> True | Some m \<Rightarrow> price_at_most m d))"

definition sorted_by :: "ustring \<Rightarrow> SortOrder \<Rightarrow> (ustring \<times> document) list \<Rightarrow> bool" where
  "sorted_by f dir docs =
     (case dir of
        ASC \<Rightarrow> sorted_wrt (\<lambda>a b. the (field_at f a) \<le> the (field_at f b)) docs
      | DESC \<Rightarrow> sorted_wrt (\<lambda>a b. the (field_at f b) \<le> the (field_at f a)) docs)"

text \<open>
  The parameters of a query with their defaults, the documents of the products collection
  that the filter selects, and the order that the store gives them for a sort field and
  direction (no sort field, no reordering).
\<close>

definition page_of :: "QueryProductDto \<Rightarrow> int" where
  "page_of q = or_default (QueryProductDto.page q) 1"

definition limit_of :: "QueryProductDto \<Rightarrow> int" where
  "limit_of q = or_default (QueryProductDto.limit q) 10"

definition sortBy_of :: "QueryProductDto \<Rightarrow> ustring" where
  "sortBy_of q = or_default (QueryProductDto.sortBy q) (ustr ''name'')"

definition sortOrder_of :: "QueryProductDto \<Rightarrow> SortOrder" where
  "sortOrder_of q = or_default (QueryProductDto.sortOrder q) ASC"

definition hits :: "(ustring \<Rightarrow> ustring) \<Rightarrow> QueryProductDto \<Rightarrow> firestore
    \<Rightarrow> (ustring \<times> document) list" where
  "hits lc q s = filter (\<lambda>(i, d). selected lc q d) (colls s products)"

definition arranged :: "ustring \<Rightarrow> SortOrder \<Rightarrow> (ustring \<times> document) list
    \<Rightarrow> (ustring \<times> document) list" where
  "arranged sb dr docs =
     ordered \<lparr>q_collection = products, q_where = [],
              q_orderBy = (if sb \<noteq> [] then Some (sb, dr) else None),
              q_limit = None, q_offset = None\<rparr> docs"

text \<open>The coming \<open>n\<close> requests to the store are not hit by a transport failure.\<close>

definition available :: "nat \<Rightarrow> firestore \<Rightarrow> bool" where
  "available n s = list_all (\<lambda>f. f = None) (take n (faults s))"

section \<open>AuthService\<close>

text \<open>
  The configuration is a map from variable names to values; \<open>a || b\<close> takes \<open>b\<close> when
  \<open>a\<close> is undefined or the empty string. \<open>JwtService.sign\<close> belongs to a library and is
  the parameter \<open>sign\<close>.
\<close>

type_synonym ConfigService = "ustring \<rightharpoonup> ustring"

record AdminUser =
  username :: ustring
  password :: ustring
  isAdmin :: bool

record JwtPayload =
  username :: ustring
  isAdmin :: bool

record LoginResponseDto =
  access_token :: ustring
  username :: ustring

definition or_else :: "ustring option \<Rightarrow> ustring \<Rightarrow> ustring" where
  "or_else a b = (case a of None \<Rightarrow> b | Some x \<Rightarrow> if x = [] then b else x)"

definition adminUsers :: "ConfigService \<Rightarrow> AdminUser list" where
  "adminUsers configService =
     [\<lparr>AdminUser.username = or_else (configService (ustr ''ADMIN1_USERNAME'')) (ustr ''admin1''),
       password = or_else (configService (ustr ''ADMIN1_PASSWORD'')) [],
       isAdmin = True\<rparr>,
      \<lparr>AdminUser.username = or_else (configService (ustr ''ADMIN2_USERNAME'')) (ustr ''admin2''),
       password = or_else (configService (ustr ''ADMIN2_PASSWORD'')) [],
       isAdmin = True\<rparr>]"

definition validateUser ::
  "ConfigService \<Rightarrow> ustring \<Rightarrow> ustring \<Rightarrow> HttpException + AdminUser" where
  "validateUser configService uname pass =
     (case find (\<lambda>user. AdminUser.username user = uname \<and> password user = pass)
             (adminUsers configService) of
        None \<Rightarrow> Inl (UnauthorizedException (ustr ''Invalid credentials''))
      | Some user \<Rightarrow> Inr user)"

definition login ::
  "(JwtPayload \<Rightarrow> ustring) \<Rightarrow> ConfigService \<Rightarrow> ustring \<Rightarrow> ustring
     \<Rightarrow> HttpException + LoginResponseDto" where
  "login sign configService uname pass =
     (case validateUser configService uname pass of
        Inl error \<Rightarrow> Inl error
      | Inr user \<Rightarrow>
          (let payload = \<lparr>JwtPayload.username = AdminUser.username user,
                          isAdmin = AdminUser.isAdmin user\<rparr>;
               token = sign payload
           in Inr \<lparr>access_token = token, username = AdminUser.username user\<rparr>))"

text \<open>The credential list in the words of the specification: the two configured
  username and password pairs.\<close>

definition configured_credentials :: "ConfigService \<Rightarrow> (ustring \<times> ustring) set" where
  "configured_credentials configService =
     {(or_else (configService (ustr ''ADMIN1_USERNAME'')) (ustr ''admin1''),
       or_else (configService (ustr ''ADMIN1_PASSWORD'')) []),
      (or_else (configService (ustr ''ADMIN2_USERNAME'')) (ustr ''admin2''),
       or_else (configService (ustr ''ADMIN2_PASSWORD'')) [])}"

section \<open>GlobalAuthGuard\<close>

text \<open>
  What the guard reads of the execution context: the \<open>isPublic\<close> metadata of the handler
  and of its class (\<open>None\<close> when the decorator is not there), the authorization header of
  the request, and the identity attached to the request. \<open>getAllAndOverride\<close> returns the
  first of the metadata values that is defined. Token verification belongs to the JWT
  library and is the parameter \<open>verify\<close>: \<open>None\<close> for a token that is malformed, expired
  or wrongly signed.
\<close>

record ExecutionContext =
  handler_isPublic :: "bool option"
  class_isPublic :: "bool option"
  authorization :: "ustring option"
  user :: "JwtPayload option"

definition getAllAndOverride :: "ExecutionContext \<Rightarrow> bool option" where
  "getAllAndOverride ctx =
     (case handler_isPublic ctx of Some v \<Rightarrow> Some v | None \<Rightarrow> class_isPublic ctx)"

definition bearer_token :: "ustring \<Rightarrow> ustring option" where
  "bearer_token h = (if take 7 h = ustr ''Bearer '' then Some (drop 7 h) else None)"

text \<open>
  Modelled from the spec: \<open>JwtAuthGuard.canActivate\<close> (src/auth/guards/jwt-auth.guard.ts is
  not among the sources). It requires a bearer token in the authorization metadata of the
  request and verifies it; on success it attaches the decoded identity to the request and
  allows the request, on failure (missing, malformed, expired or wrongly signed) it
  rejects the request with \<open>Unauthorized\<close>.
\<close>

definition JwtAuthGuard_canActivate ::
  "(ustring \<Rightarrow> JwtPayload option) \<Rightarrow> ExecutionContext
     \<Rightarrow> HttpException + bool \<times> ExecutionContext" where
  "JwtAuthGuard_canActivate verify ctx =
     (case authorization ctx of
        None \<Rightarrow> Inl (UnauthorizedException (ustr ''Unauthorized''))
      | Some h \<Rightarrow>
          (case bearer_token h of
             None \<Rightarrow> Inl (UnauthorizedException (ustr ''Unauthorized''))
           | Some t \<Rightarrow>
               (case verify t of
                  None \<Rightarrow> Inl (UnauthorizedException (ustr ''Unauthorized''))
                | Some identity \<Rightarrow> Inr (True, ctx\<lparr>user := Some identity\<rparr>))))"

definition canActivate ::
  "(ustring \<Rightarrow> JwtPayload option) \<Rightarrow> ExecutionContext
     \<Rightarrow> HttpException + bool \<times> ExecutionContext" where
  "canActivate verify ctx =
     (let isPublic = getAllAndOverride ctx
      in if isPublic = Some True then Inr (True, ctx)
         else JwtAuthGuard_canActivate verify ctx)"

text \<open>The framework runs the global guard before the handler: the handler is called only
  when the guard returns true, with the context the guard leaves; a guard that returns
  false is answered with \<open>Forbidden\<close>, one that throws with its exception.\<close>

definition guarded ::
  "(ustring \<Rightarrow> JwtPayload option) \<Rightarrow> (ExecutionContext \<Rightarrow> 'r) \<Rightarrow> ExecutionContext
     \<Rightarrow> HttpException + 'r" where
  "guarded verify handler ctx =
     (case canActivate verify ctx of
        Inl e \<Rightarrow> Inl e
      | Inr (allowed, ctx1) \<Rightarrow>
          if allowed then Inr (handler ctx1)
          else Inl (ForbiddenException (ustr ''Forbidden resource'')))"

section \<open>Reading a stored field\<close>

text \<open>The value that the product stored under an id has in a field, if the product and the
  field are there.\<close>

definition stored_field :: "firestore \<Rightarrow> ustring \<Rightarrow> ustring \<Rightarrow> fvalue option" where
  "stored_field s i k = (case map_of (colls s products) i of None \<Rightarrow> None | Some d \<Rightarrow> d k)"

section \<open>Concrete inputs\<close>

definition store0 :: firestore where
  "store0 = \<lparr>colls = (\<lambda>c. []), calls = [], faults = []\<rparr>"

definition wireless_mouse :: CreateProductDto where
  "wireless_mouse =
     \<lparr>CreateProductDto.nameSearch = None, name = ustr ''Wireless Mouse'',
      description = ustr ''A mouse without a wire'', price = 2500, stock = 7,
      category = ustr ''Electronics''\<rparr>"

definition price_only :: UpdateProductDto where
  "price_only =
     \<lparr>UpdateProductDto.nameSearch = Absent, name = Absent, description = Absent,
      price = Present 1999, stock = Absent, category = Absent\<rparr>"



definition null_name :: UpdateProductDto where
  "null_name =
     \<lparr>UpdateProductDto.nameSearch = Absent, name = Null, description = Absent,
      price = Absent, stock = Absent, category = Absent\<rparr>"

text \<open>The store after \<open>create(wireless_mouse)\<close>, the new document filed under \<open>p1\<close>.\<close>

definition store1 :: firestore where
  "store1 = snd (create toLowerCase_ascii store0 (ustr ''p1'') wireless_mouse)"

definition page_zero :: QueryProductDto where
  "page_zero =
     \<lparr>QueryProductDto.page = Some 0, limit = None, name = None, category = None,
      minPrice = None, maxPrice = None, sortBy = None, sortOrder = None\<rparr>"

definition limit_101 :: CollectionOptions where
  "limit_101 =
     \<lparr>CollectionOptions.page = None, limit = Some 101, filters = None, sortBy = None,
      sortOrder = None\<rparr>"

definition limit_100 :: CollectionOptions where
  "limit_100 =
     \<lparr>CollectionOptions.page = None, limit = Some 100, filters = None, sortBy = None,
      sortOrder = None\<rparr>"

text \<open>The document that \<open>create(wireless_mouse)\<close> stores.\<close>

definition mouse_doc :: document where
  "mouse_doc = spread_create wireless_mouse
     ++ [ustr ''nameSearch'' \<mapsto> VStr (toLowerCase_ascii (CreateProductDto.name wireless_mouse))]"

text \<open>A configuration, a signing function and the matching verification, and four requests.\<close>

definition example_config :: ConfigService where
  "example_config =
     [ustr ''ADMIN1_PASSWORD'' \<mapsto> ustr ''secret-one'',
      ustr ''ADMIN2_USERNAME'' \<mapsto> ustr ''root'',
      ustr ''ADMIN2_PASSWORD'' \<mapsto> ustr ''secret-two'']"

definition example_sign :: "JwtPayload \<Rightarrow> ustring" where
  "example_sign payload =
     ustr ''jwt:'' @ JwtPayload.username payload
       @ (if JwtPayload.isAdmin payload then ustr '':admin'' else ustr '':user'')"

definition example_verify :: "ustring \<Rightarrow> JwtPayload option" where
  "example_verify t =
     (if t = ustr ''jwt:admin1:admin''
      then Some \<lparr>JwtPayload.username = ustr ''admin1'', isAdmin = True\<rparr> else None)"

definition login_request :: ExecutionContext where
  "login_request =
     \<lparr>handler_isPublic = Some True, class_isPublic = None, authorization = None, user = None\<rparr>"

definition anonymous_request :: ExecutionContext where
  "anonymous_request =
     \<lparr>handler_isPublic = None, class_isPublic = None, authorization = None, user = None\<rparr>"

definition forged_request :: ExecutionContext where
  "forged_request =
     \<lparr>handler_isPublic = None, class_isPublic = None,
      authorization = Some (ustr ''Bearer jwt:admin1:user''), user = None\<rparr>"

definition admin_request :: ExecutionContext where
  "admin_request =
     \<lparr>handler_isPublic = None, class_isPublic = None,
      authorization = Some (ustr ''Bearer jwt:admin1:admin''), user = None\<rparr>"

text \<open>
  A shop of three products; the query \<open>list(name = f)\<close> with every other parameter absent;
  a query sorted by \<open>colour\<close>, a field that no product has;
  a query for the second page of one item of the electronics that cost 100 or more, most
  expensive first; the ids and the total of a response; and a store whose one product has
  a name with the character U+F900 after \<open>Wire\<close>.
\<close>

definition usb_cable :: CreateProductDto where
  "usb_cable =
     \<lparr>CreateProductDto.nameSearch = None, name = ustr ''USB Cable'',
      description = ustr ''One metre of cable'', price = 500, stock = 40,
      category = ustr ''Electronics''\<rparr>"

definition wire_basket :: CreateProductDto where
  "wire_basket =
     \<lparr>CreateProductDto.nameSearch = None, name = ustr ''Wire Basket'',
      description = ustr ''A basket made of wire'', price = 1200, stock = 3,
      category = ustr ''Furniture''\<rparr>"

definition stored :: "CreateProductDto \<Rightarrow> document" where
  "stored dto = spread_create dto
     ++ [ustr ''nameSearch'' \<mapsto> VStr (toLowerCase_ascii (CreateProductDto.name dto))]"

definition shop :: firestore where
  "shop = \<lparr>colls = (\<lambda>c. if c = products
              then [(ustr ''p1'', stored wireless_mouse), (ustr ''p2'', stored usb_cable),
                    (ustr ''p3'', stored wire_basket)]
              else []),
           calls = [], faults = []\<rparr>"

definition by_name :: "ustring \<Rightarrow> QueryProductDto" where
  "by_name f =
     \<lparr>QueryProductDto.page = None, limit = None, name = Some f, category = None,
      minPrice = None, maxPrice = None, sortBy = None, sortOrder = None\<rparr>"

definition by_colour :: QueryProductDto where
  "by_colour =
     \<lparr>QueryProductDto.page = None, limit = None, name = None, category = None,
      minPrice = None, maxPrice = None, sortBy = Some (ustr ''colour''), sortOrder = None\<rparr>"

definition by_unit_price :: QueryProductDto where
  "by_unit_price =
     \<lparr>QueryProductDto.page = None, limit = None, name = None, category = None,
      minPrice = None, maxPrice = None, sortBy = Some (ustr ''price/stock''),
      sortOrder = None\<rparr>"

definition cheap_first :: QueryProductDto where
  "cheap_first =
     \<lparr>QueryProductDto.page = Some 2, limit = Some 1, name = None,
      category = Some (ustr ''Electronics''),
      minPrice = Some 100, maxPrice = None, sortBy = Some (ustr ''price''),
      sortOrder = Some DESC\<rparr>"

definition listed ::
  "(HttpException + PaginatedProductsResponseDto) \<times> firestore
     \<Rightarrow> HttpException + fvalue option list \<times> int" where
  "listed r =
     map_sum id (\<lambda>resp. (map (\<lambda>d. d (ustr ''id'')) (items resp), total resp)) (fst r)"

definition wire_glyph :: CreateProductDto where
  "wire_glyph =
     \<lparr>CreateProductDto.nameSearch = None, name = ustr ''Wire'' @ [63744],
      description = ustr ''A name with a glyph'', price = 100, stock = 1,
      category = ustr ''Others''\<rparr>"

definition glyph_store :: firestore where
  "glyph_store = snd (create toLowerCase_ascii store0 (ustr ''p9'') wire_glyph)"

section \<open>Basic facts\<close>

lemma ustr_eq_iff [simp]: "ustr a = ustr b \<longleftrightarrow> a = b"
  unfolding ustr_def using inj_of_char by (metis inj_map inj_eq)

lemma ustr_Nil_iff [simp]: "ustr a = [] \<longleftrightarrow> a = []"
  by (simp add: ustr_def)

lemma opt_field_apply:
  "opt_field k v j = (if j = k then v else None)"
  by (cases v) (simp_all add: opt_field_def)

lemma spread_create_fields:
  "spread_create dto (ustr ''name'') = Some (VStr (CreateProductDto.name dto))"
  "spread_create dto (ustr ''description'') = Some (VStr (CreateProductDto.description dto))"
  "spread_create dto (ustr ''price'') = Some (VNum (of_int (CreateProductDto.price dto)))"
  "spread_create dto (ustr ''stock'') = Some (VNum (of_int (CreateProductDto.stock dto)))"
  "spread_create dto (ustr ''category'') = Some (VStr (CreateProductDto.category dto))"
  "spread_create dto (ustr ''nameSearch'') = map_option VStr (CreateProductDto.nameSearch dto)"
  "spread_create dto (ustr ''id'') = None"
  by (simp_all add: spread_create_def map_add_def opt_field_apply)

lemma spread_update_fields:
  "spread_update dto (ustr ''name'') = prop_value VStr (UpdateProductDto.name dto)"
  "spread_update dto (ustr ''description'') = prop_value VStr (UpdateProductDto.description dto)"
  "spread_update dto (ustr ''price'')
     = prop_value (\<lambda>p. VNum (of_int p)) (UpdateProductDto.price dto)"
  "spread_update dto (ustr ''stock'')
     = prop_value (\<lambda>p. VNum (of_int p)) (UpdateProductDto.stock dto)"
  "spread_update dto (ustr ''category'') = prop_value VStr (UpdateProductDto.category dto)"
  "spread_update dto (ustr ''nameSearch'') = prop_value VStr (UpdateProductDto.nameSearch dto)"
  "spread_update dto (ustr ''id'') = None"
  by (simp_all add: spread_update_def map_add_def opt_field_apply split: option.splits)

lemma dataToUpdate_apply:
  "dataToUpdate lc dto k =
     (case UpdateProductDto.name dto of
        Present n \<Rightarrow> if k = ustr ''nameSearch'' \<and> n \<noteq> [] then Some (VStr (lc n))
                     else spread_update dto k
      | _ \<Rightarrow> spread_update dto k)"
  by (auto simp: dataToUpdate_def split: field.splits)

lemma map_nonempty: "m k = Some v \<Longrightarrow> m \<noteq> Map.empty"
  by auto

lemma dataToUpdate_empty_iff:
  "dataToUpdate lc dto = Map.empty \<longleftrightarrow> spread_update dto = Map.empty"
proof (cases "UpdateProductDto.name dto")
  case (Present n)
  then have a: "spread_update dto (ustr ''name'') = Some (VStr n)"
    by (simp add: spread_update_fields)
  from Present a have b: "dataToUpdate lc dto (ustr ''name'') = Some (VStr n)"
    by (simp add: dataToUpdate_apply)
  from map_nonempty [of "spread_update dto", OF a] map_nonempty [of "dataToUpdate lc dto", OF b]
  show ?thesis by simp
qed (simp_all add: dataToUpdate_def)

lemma send_colls: "colls (snd (send s c)) = colls s"
  by (simp add: send_def split: list.splits)

lemma send_calls: "calls (snd (send s c)) = calls s @ [c]"
  by (simp add: send_def split: list.splits)

lemma send_ok:
  "available (Suc n) s \<Longrightarrow>
     \<exists>s1. send s c = (None, s1) \<and> colls s1 = colls s \<and> calls s1 = calls s @ [c]
       \<and> available n s1"
  by (cases "faults s") (auto simp: send_def available_def)

lemma doc_get_ok:
  "available (Suc n) s \<Longrightarrow>
     \<exists>s1. doc_get s c i = (Inr (map_of (colls s c) i), s1) \<and> colls s1 = colls s
       \<and> calls s1 = calls s @ [DocGet c i] \<and> available n s1"
  using send_ok [of n s "DocGet c i"] by (auto simp: doc_get_def)

lemma doc_add_ok:
  "available (Suc n) s \<Longrightarrow>
     \<exists>s1. doc_add s nid c data = (Inr nid, s1)
       \<and> colls s1 = (colls s)(c := insort_key fst (nid, data) (colls s c))
       \<and> calls s1 = calls s @ [DocAdd c] \<and> available n s1"
  using send_ok [of n s "DocAdd c"] by (auto simp: doc_add_def available_def)

lemma doc_update_ok:
  "available (Suc n) s \<Longrightarrow> map_of (colls s c) i = Some old \<Longrightarrow> data \<noteq> Map.empty \<Longrightarrow>
     \<exists>s1. doc_update s c i data = (Inr (), s1)
       \<and> colls s1 = (colls s)
            (c := map (\<lambda>(j, d). if j = i then (j, d ++ data) else (j, d)) (colls s c))
       \<and> calls s1 = calls s @ [DocUpdate c i] \<and> available n s1"
  using send_ok [of n s "DocUpdate c i"] by (auto simp: doc_update_def available_def)

lemma doc_delete_ok:
  "available (Suc n) s \<Longrightarrow>
     \<exists>s1. doc_delete s c i = (Inr (), s1)
       \<and> colls s1 = (colls s)(c := filter (\<lambda>(j, d). j \<noteq> i) (colls s c))
       \<and> calls s1 = calls s @ [DocDelete c i] \<and> available n s1"
  using send_ok [of n s "DocDelete c i"] by (auto simp: doc_delete_def available_def)

lemma getDocument_ok:
  "available (Suc n) s \<Longrightarrow>
     \<exists>s1. getDocument s c i = (Inr (map_option (with_id i) (map_of (colls s c) i)), s1)
       \<and> colls s1 = colls s \<and> calls s1 = calls s @ [DocGet c i] \<and> available n s1"
  using doc_get_ok [of n s c i]
  by (cases "map_of (colls s c) i") (auto simp: getDocument_def)

lemma addDocument_ok:
  "available (Suc n) s \<Longrightarrow>
     \<exists>s1. addDocument s nid c data = (Inr nid, s1)
       \<and> colls s1 = (colls s)(c := insort_key fst (nid, data) (colls s c))
       \<and> calls s1 = calls s @ [DocAdd c] \<and> available n s1"
  using doc_add_ok [of n s nid c data] by (auto simp: addDocument_def)

lemma updateDocument_ok:
  assumes "available (Suc (Suc n)) s" and "map_of (colls s c) i = Some old"
    and "data \<noteq> Map.empty"
  shows "\<exists>s2. updateDocument s c i data = (Inr (), s2)
       \<and> colls s2 = (colls s)
            (c := map (\<lambda>(j, d). if j = i then (j, d ++ data) else (j, d)) (colls s c))
       \<and> calls s2 = calls s @ [DocGet c i, DocUpdate c i] \<and> available n s2"
proof -
  from doc_get_ok [OF assms(1), of c i] assms(2) obtain s1 where
    g: "doc_get s c i = (Inr (Some old), s1)" "colls s1 = colls s"
       "calls s1 = calls s @ [DocGet c i]" "available (Suc n) s1" by auto
  from g(2) assms(2) have "map_of (colls s1 c) i = Some old" by simp
  from doc_update_ok [OF g(4) this assms(3)] obtain s2 where
    u: "doc_update s1 c i data = (Inr (), s2)"
       "colls s2 = (colls s1)
            (c := map (\<lambda>(j, d). if j = i then (j, d ++ data) else (j, d)) (colls s1 c))"
       "calls s2 = calls s1 @ [DocUpdate c i]" "available n s2" by auto
  from g u show ?thesis by (simp add: updateDocument_def)
qed

lemma deleteDocument_ok:
  assumes "available (Suc (Suc n)) s" and "map_of (colls s c) i = Some old"
  shows "\<exists>s2. deleteDocument s c i = (Inr (), s2)
       \<and> colls s2 = (colls s)(c := filter (\<lambda>(j, d). j \<noteq> i) (colls s c))
       \<and> calls s2 = calls s @ [DocGet c i, DocDelete c i] \<and> available n s2"
proof -
  from doc_get_ok [OF assms(1), of c i] assms(2) obtain s1 where
    g: "doc_get s c i = (Inr (Some old), s1)" "colls s1 = colls s"
       "calls s1 = calls s @ [DocGet c i]" "available (Suc n) s1" by auto
  from doc_delete_ok [OF g(4), of c i] obtain s2 where
    u: "doc_delete s1 c i = (Inr (), s2)"
       "colls s2 = (colls s1)(c := filter (\<lambda>(j, d). j \<noteq> i) (colls s1 c))"
       "calls s2 = calls s1 @ [DocDelete c i]" "available n s2" by auto
  from g u show ?thesis by (simp add: deleteDocument_def)
qed

lemma create_ok:
  assumes "available (Suc n) s"
  shows "\<exists>s1. create lc s nid dto =
            (Inr ([ustr ''id'' \<mapsto> VStr nid] ++ spread_create dto), s1)
       \<and> colls s1 = (colls s)(products := insort_key fst
            (nid, spread_create dto ++ [ustr ''nameSearch'' \<mapsto> VStr (lc (CreateProductDto.name dto))])
            (colls s products))
       \<and> calls s1 = calls s @ [DocAdd products] \<and> available n s1"
  using addDocument_ok [OF assms, of nid products
     "spread_create dto ++ [ustr ''nameSearch'' \<mapsto> VStr (lc (CreateProductDto.name dto))]"]
  by (auto simp: create_def Let_def)

lemma findOne_ok:
  assumes "available (Suc n) s" and "map_of (colls s products) i = Some d"
  shows "\<exists>s1. findOne s i = (Inr (with_id i d), s1) \<and> colls s1 = colls s
       \<and> calls s1 = calls s @ [DocGet products i] \<and> available n s1"
  using getDocument_ok [OF assms(1), of products i] assms(2)
  by (auto simp: findOne_def)

lemma update_ok:
  assumes "available (Suc (Suc (Suc n))) s" and "map_of (colls s products) i = Some old"
    and "spread_update dto \<noteq> Map.empty"
  shows "\<exists>s3. update lc s i dto =
            (Inr ([ustr ''id'' \<mapsto> VStr i] ++ with_id i old ++ spread_update dto), s3)
       \<and> colls s3 = (colls s)(products :=
            map (\<lambda>(j, d). if j = i then (j, d ++ dataToUpdate lc dto) else (j, d))
              (colls s products))
       \<and> calls s3 = calls s @ [DocGet products i, DocGet products i, DocUpdate products i]
       \<and> available n s3"
proof -
  from getDocument_ok [OF assms(1), of products i] assms(2) obtain s1 where
    g: "getDocument s products i = (Inr (Some (with_id i old)), s1)" "colls s1 = colls s"
       "calls s1 = calls s @ [DocGet products i]" "available (Suc (Suc n)) s1" by auto
  from g(2) assms(2) have "map_of (colls s1 products) i = Some old" by simp
  have "dataToUpdate lc dto \<noteq> Map.empty"
    using assms(3) by (simp add: dataToUpdate_empty_iff)
  from updateDocument_ok [OF g(4) \<open>map_of (colls s1 products) i = Some old\<close> this] obtain s3 where
    u: "updateDocument s1 products i (dataToUpdate lc dto) = (Inr (), s3)"
       "colls s3 = (colls s1)(products :=
            map (\<lambda>(j, d). if j = i then (j, d ++ dataToUpdate lc dto) else (j, d))
              (colls s1 products))"
       "calls s3 = calls s1 @ [DocGet products i, DocUpdate products i]"
       "available n s3" by auto
  from g u show ?thesis by (simp add: update_def)
qed

lemma remove_ok:
  assumes "available (Suc (Suc (Suc n))) s" and "map_of (colls s products) i = Some old"
  shows "\<exists>s3. remove s i = (Inr (i, True), s3)
       \<and> colls s3 = (colls s)(products := filter (\<lambda>(j, d). j \<noteq> i) (colls s products))
       \<and> calls s3 = calls s @ [DocGet products i, DocGet products i, DocDelete products i]
       \<and> available n s3"
proof -
  from getDocument_ok [OF assms(1), of products i] assms(2) obtain s1 where
    g: "getDocument s products i = (Inr (Some (with_id i old)), s1)" "colls s1 = colls s"
       "calls s1 = calls s @ [DocGet products i]" "available (Suc (Suc n)) s1" by auto
  from g(2) assms(2) have "map_of (colls s1 products) i = Some old" by simp
  from deleteDocument_ok [OF g(4) this] obtain s3 where
    u: "deleteDocument s1 products i = (Inr (), s3)"
       "colls s3 = (colls s1)(products := filter (\<lambda>(j, d). j \<noteq> i) (colls s1 products))"
       "calls s3 = calls s1 @ [DocGet products i, DocDelete products i]"
       "available n s3" by auto
  from g u show ?thesis by (simp add: remove_def)
qed

lemma map_of_insort_key_fst:
  "map_of (insort_key fst (k, v) xs) k = Some v"
  by (induction xs) auto

lemma map_of_insort_key_other:
  "j \<noteq> k \<Longrightarrow> map_of (insort_key fst (k, v) xs) j = map_of xs j"
  by (induction xs) auto

lemma map_of_patch:
  "map_of (map (\<lambda>(j, d). if j = i then (j, d ++ data) else (j, d)) xs) k =
     (if k = i then map_option (\<lambda>d. d ++ data) (map_of xs k) else map_of xs k)"
  by (induction xs) auto

lemma store0_available: "available n store0"
  by (simp add: store0_def available_def)

lemma store1_products: "colls store1 products = [(ustr ''p1'', mouse_doc)]"
  using create_ok [of 0 store0 toLowerCase_ascii "ustr ''p1''" wireless_mouse] store0_available [of 1]
  by (auto simp: store1_def mouse_doc_def store0_def)

lemma store1_available: "available n store1"
  using create_ok [of n store0 toLowerCase_ascii "ustr ''p1''" wireless_mouse]
    store0_available [of "Suc n"]
  by (auto simp: store1_def)

lemma mouse_doc_nameSearch:
  "mouse_doc (ustr ''nameSearch'') = Some (VStr (ustr ''wireless mouse''))"
  by (simp add: mouse_doc_def wireless_mouse_def toLowerCase_ascii_def ustr_def)

text \<open>No operation changes the stored documents other than by the one write it makes.\<close>

lemma doc_get_colls: "colls (snd (doc_get s c i)) = colls s"
  by (simp add: doc_get_def send_def split: list.splits option.splits)

lemma getDocument_colls: "colls (snd (getDocument s c i)) = colls s"
  using doc_get_colls [of s c i]
  by (auto simp: getDocument_def split: prod.splits sum.splits option.splits)

lemma query_get_colls: "colls (snd (query_get s q)) = colls s"
  by (simp add: query_get_def send_def split: list.splits option.splits)

lemma addDocument_colls:
  "colls (snd (addDocument s nid c data)) = colls s
   \<or> colls (snd (addDocument s nid c data))
       = (colls s)(c := insort_key fst (nid, data) (colls s c))"
  by (simp add: addDocument_def doc_add_def send_def split: list.splits option.splits)

lemma doc_update_colls:
  "colls (snd (doc_update s c i data)) = colls s
   \<or> colls (snd (doc_update s c i data))
       = (colls s)(c := map (\<lambda>(j, d). if j = i then (j, d ++ data) else (j, d)) (colls s c))"
  by (simp add: doc_update_def send_def split: list.splits option.splits)

lemma doc_delete_colls:
  "colls (snd (doc_delete s c i)) = colls s
   \<or> colls (snd (doc_delete s c i))
       = (colls s)(c := filter (\<lambda>(j, d). j \<noteq> i) (colls s c))"
  by (simp add: doc_delete_def send_def split: list.splits option.splits)

lemma updateDocument_colls:
  "colls (snd (updateDocument s c i data)) = colls s
   \<or> colls (snd (updateDocument s c i data))
       = (colls s)(c := map (\<lambda>(j, d). if j = i then (j, d ++ data) else (j, d)) (colls s c))"
proof -
  obtain r s1 where g: "doc_get s c i = (r, s1)" by (cases "doc_get s c i")
  with doc_get_colls [of s c i] have s1: "colls s1 = colls s" by simp
  show ?thesis
    using g s1 doc_update_colls [of s1 c i data]
    by (auto simp: updateDocument_def split: sum.splits option.splits prod.splits)
qed

lemma deleteDocument_colls:
  "colls (snd (deleteDocument s c i)) = colls s
   \<or> colls (snd (deleteDocument s c i))
       = (colls s)(c := filter (\<lambda>(j, d). j \<noteq> i) (colls s c))"
proof -
  obtain r s1 where g: "doc_get s c i = (r, s1)" by (cases "doc_get s c i")
  with doc_get_colls [of s c i] have s1: "colls s1 = colls s" by simp
  show ?thesis
    using g s1 doc_delete_colls [of s1 c i]
    by (auto simp: deleteDocument_def split: sum.splits option.splits prod.splits)
qed

lemma create_colls:
  "colls (snd (create lc s nid dto)) = colls s
   \<or> colls (snd (create lc s nid dto))
       = (colls s)(products := insort_key fst
           (nid, spread_create dto
                  ++ [ustr ''nameSearch'' \<mapsto> VStr (lc (CreateProductDto.name dto))])
           (colls s products))"
  using addDocument_colls [of s nid products "spread_create dto
                  ++ [ustr ''nameSearch'' \<mapsto> VStr (lc (CreateProductDto.name dto))]"]
  by (auto simp: create_def Let_def split: prod.splits sum.splits)

lemma update_colls:
  "colls (snd (update lc s i dto)) = colls s
   \<or> colls (snd (update lc s i dto))
       = (colls s)(products :=
            map (\<lambda>(j, d). if j = i then (j, d ++ dataToUpdate lc dto) else (j, d))
              (colls s products))"
proof -
  obtain r s1 where g: "getDocument s products i = (r, s1)"
    by (cases "getDocument s products i")
  with getDocument_colls [of s products i] have s1: "colls s1 = colls s" by simp
  show ?thesis
    using g s1 updateDocument_colls [of s1 products i "dataToUpdate lc dto"]
    by (auto simp: update_def split: sum.splits option.splits prod.splits)
qed

lemma remove_colls:
  "colls (snd (remove s i)) = colls s
   \<or> colls (snd (remove s i))
       = (colls s)(products := filter (\<lambda>(j, d). j \<noteq> i) (colls s products))"
proof -
  obtain r s1 where g: "getDocument s products i = (r, s1)"
    by (cases "getDocument s products i")
  with getDocument_colls [of s products i] have s1: "colls s1 = colls s" by simp
  show ?thesis
    using g s1 deleteDocument_colls [of s1 products i]
    by (auto simp: remove_def split: sum.splits option.splits prod.splits)
qed

lemma findOne_colls: "colls (snd (findOne s i)) = colls s"
  using getDocument_colls [of s products i]
  by (auto simp: findOne_def split: sum.splits option.splits prod.splits)

lemma snd_case_query_get:
  "colls (snd (case query_get s q of
                 (Inl m, s2) \<Rightarrow> (f m, s2)
               | (Inr x, s2) \<Rightarrow> (g x, s2))) = colls s"
  using query_get_colls [of s q]
  by (cases "query_get s q") (auto split: sum.splits)

lemma getCollectionWithOptions_colls:
  "colls (snd (getCollectionWithOptions lc s c options)) = colls s"
proof -
  let ?q = "foldl (apply_filter lc) (collection_query c)
              (or_default (CollectionOptions.filters options) [])"
  obtain r1 s1 where q1: "query_get s ?q = (r1, s1)" by (cases "query_get s ?q")
  with query_get_colls [of s ?q] have s1: "colls s1 = colls s" by simp
  show ?thesis
    using q1 s1
    by (cases r1)
       (simp_all add: getCollectionWithOptions_def Let_def snd_case_query_get
          split: sum.splits)
qed

lemma findAll_colls: "colls (snd (findAll lc s q)) = colls s"
proof -
  let ?o = "\<lparr>CollectionOptions.page = Some (or_default (QueryProductDto.page q) 1),
             limit = Some (or_default (QueryProductDto.limit q) 10),
             filters = Some (build_filters q),
             sortBy = QueryProductDto.sortBy q,
             sortOrder = QueryProductDto.sortOrder q\<rparr>"
  obtain r s1 where g: "getCollectionWithOptions lc s products ?o = (r, s1)"
    by (cases "getCollectionWithOptions lc s products ?o")
  with getCollectionWithOptions_colls [of lc s products ?o] have "colls s1 = colls s"
    by simp
  with g show ?thesis
    by (cases r) (auto simp: findAll_def Let_def)
qed

lemma wireless_mouse_valid:
  "validate_create wireless_mouse" "whitelist_create wireless_mouse = wireless_mouse"
  by (simp_all add: validate_create_def whitelist_create_def wireless_mouse_def valid_name_def
        valid_description_def valid_price_def valid_stock_def valid_category_def categories_def
        validator_length_def ustr_def)

section \<open>Updating or deleting an id that is not in the store\<close>

text \<open>
  C7. For an id that the collection does not hold, with the store reachable,
  \<open>updateDocument\<close> and \<open>deleteDocument\<close> fail with \<open>NotFoundException\<close>, and so do
  \<open>update\<close> and \<open>remove\<close> of the product service. The store holds the same documents
  afterwards, and the only request sent to it is the read of the existence check: no
  write is attempted.
\<close>

theorem absent_id_not_found:
  assumes "i \<notin> fst ` set (colls s c)" and "available 1 s"
  shows "(\<exists>s'. updateDocument s c i data =
            (Inl (NotFoundException
               (ustr ''Document with ID '' @ i @ ustr '' not found in collection '' @ c)), s')
          \<and> colls s' = colls s \<and> calls s' = calls s @ [DocGet c i])
       \<and> (\<exists>s'. deleteDocument s c i =
            (Inl (NotFoundException
               (ustr ''Document with ID '' @ i @ ustr '' not found in collection '' @ c)), s')
          \<and> colls s' = colls s \<and> calls s' = calls s @ [DocGet c i])
       \<and> (c = products \<longrightarrow>
           (\<exists>s'. update lc s i dto =
              (Inl (NotFoundException (ustr ''Product with ID '' @ i @ ustr '' not found'')), s')
            \<and> colls s' = colls s \<and> calls s' = calls s @ [DocGet products i])
         \<and> (\<exists>s'. remove s i =
              (Inl (NotFoundException (ustr ''Product with ID '' @ i @ ustr '' not found'')), s')
            \<and> colls s' = colls s \<and> calls s' = calls s @ [DocGet products i]))"
proof -
  from assms(1) have none: "map_of (colls s c) i = None"
    by (simp add: map_of_eq_None_iff)
  from assms(2) have av: "available (Suc 0) s" by simp
  from doc_get_ok [OF av, of c i] none obtain s1 where
    g: "doc_get s c i = (Inr None, s1)" "colls s1 = colls s"
       "calls s1 = calls s @ [DocGet c i]" by auto
  from getDocument_ok [OF av, of c i] none obtain s2 where
    gd: "getDocument s c i = (Inr None, s2)" "colls s2 = colls s"
        "calls s2 = calls s @ [DocGet c i]" by auto
  have a: "\<exists>s'. updateDocument s c i data =
            (Inl (NotFoundException
               (ustr ''Document with ID '' @ i @ ustr '' not found in collection '' @ c)), s')
          \<and> colls s' = colls s \<and> calls s' = calls s @ [DocGet c i]"
    using g by (simp add: updateDocument_def)
  have b: "\<exists>s'. deleteDocument s c i =
            (Inl (NotFoundException
               (ustr ''Document with ID '' @ i @ ustr '' not found in collection '' @ c)), s')
          \<and> colls s' = colls s \<and> calls s' = calls s @ [DocGet c i]"
    using g by (simp add: deleteDocument_def)
  have c: "c = products \<longrightarrow>
           (\<exists>s'. update lc s i dto =
              (Inl (NotFoundException (ustr ''Product with ID '' @ i @ ustr '' not found'')), s')
            \<and> colls s' = colls s \<and> calls s' = calls s @ [DocGet products i])"
    using gd by (auto simp: update_def)
  have d: "c = products \<longrightarrow>
         (\<exists>s'. remove s i =
              (Inl (NotFoundException (ustr ''Product with ID '' @ i @ ustr '' not found'')), s')
            \<and> colls s' = colls s \<and> calls s' = calls s @ [DocGet products i])"
    using gd by (auto simp: remove_def)
  from a b c d show ?thesis by blast
qed

theorem absent_id_not_found_witness:
  "ustr ''p1'' \<notin> fst ` set (colls store0 products) \<and> available 1 store0
   \<and> (\<exists>s'. update toLowerCase_ascii store0 (ustr ''p1'') price_only
         = (Inl (NotFoundException
              (ustr ''Product with ID '' @ ustr ''p1'' @ ustr '' not found'')), s')
        \<and> colls s' = colls store0 \<and> calls s' = calls store0 @ [DocGet products (ustr ''p1'')])
   \<and> (\<exists>s'. remove store0 (ustr ''p1'')
         = (Inl (NotFoundException
              (ustr ''Product with ID '' @ ustr ''p1'' @ ustr '' not found'')), s')
        \<and> colls s' = colls store0 \<and> calls s' = calls store0 @ [DocGet products (ustr ''p1'')])"
proof -
  have h1: "ustr ''p1'' \<notin> fst ` set (colls store0 products)" by (simp add: store0_def)
  have h2: "available 1 store0" by (simp add: store0_def available_def)
  from absent_id_not_found [OF h1 h2, where lc = toLowerCase_ascii and dto = price_only]
  show ?thesis using h1 h2 by simp
qed

section \<open>Pagination parameters out of range\<close>

text \<open>
  C3. When the page is below 1 or the limit is below 1 or above 100,
  \<open>getCollectionWithOptions\<close> and \<open>findAll\<close> fail with the \<open>BadRequestException\<close> of
  the pagination check and return the store as it was: no request has been sent to it
  and nothing has been read or written. A limit of exactly 100 with a page of at least 1
  is not rejected by that check.
\<close>

theorem invalid_pagination_rejected:
  "(or_default (CollectionOptions.page options) 1 < 1
      \<or> or_default (CollectionOptions.limit options) 10 < 1
      \<or> or_default (CollectionOptions.limit options) 10 > 100
    \<longrightarrow> getCollectionWithOptions lc s c options
          = (Inl (BadRequestException invalid_pagination), s))
   \<and> (or_default (QueryProductDto.page q) 1 < 1
      \<or> or_default (QueryProductDto.limit q) 10 < 1
      \<or> or_default (QueryProductDto.limit q) 10 > 100
    \<longrightarrow> findAll lc s q = (Inl (BadRequestException invalid_pagination), s))
   \<and> (1 \<le> or_default (CollectionOptions.page options) 1
      \<and> CollectionOptions.limit options = Some 100
    \<longrightarrow> (\<forall>m. fst (getCollectionWithOptions lc s c options) \<noteq> Inl (BadRequestException m)))"
proof (intro conjI impI)
  assume "or_default (CollectionOptions.page options) 1 < 1
      \<or> or_default (CollectionOptions.limit options) 10 < 1
      \<or> or_default (CollectionOptions.limit options) 10 > 100"
  then show "getCollectionWithOptions lc s c options
          = (Inl (BadRequestException invalid_pagination), s)"
    by (auto simp: getCollectionWithOptions_def Let_def)
next
  assume "or_default (QueryProductDto.page q) 1 < 1
      \<or> or_default (QueryProductDto.limit q) 10 < 1
      \<or> or_default (QueryProductDto.limit q) 10 > 100"
  then show "findAll lc s q = (Inl (BadRequestException invalid_pagination), s)"
    by (auto simp: findAll_def getCollectionWithOptions_def Let_def or_default_def)
next
  assume a: "1 \<le> or_default (CollectionOptions.page options) 1
      \<and> CollectionOptions.limit options = Some 100"
  show "\<forall>m. fst (getCollectionWithOptions lc s c options) \<noteq> Inl (BadRequestException m)"
    using a
    by (auto simp: getCollectionWithOptions_def Let_def or_default_def
             split: prod.splits sum.splits)
qed

theorem invalid_pagination_rejected_witness:
  "or_default (QueryProductDto.page page_zero) 1 < 1
   \<and> findAll toLowerCase_ascii store0 page_zero = (Inl (BadRequestException invalid_pagination), store0)
   \<and> or_default (CollectionOptions.limit limit_101) 10 > 100
   \<and> getCollectionWithOptions toLowerCase_ascii store0 products limit_101
       = (Inl (BadRequestException invalid_pagination), store0)
   \<and> 1 \<le> or_default (CollectionOptions.page limit_100) 1
   \<and> CollectionOptions.limit limit_100 = Some 100
   \<and> (\<forall>m. fst (getCollectionWithOptions toLowerCase_ascii store0 products limit_100)
          \<noteq> Inl (BadRequestException m))"
proof -
  have h1: "or_default (QueryProductDto.page page_zero) 1 < 1"
    by (simp add: page_zero_def or_default_def)
  have h2: "or_default (CollectionOptions.limit limit_101) 10 > 100"
    by (simp add: limit_101_def or_default_def)
  have h3: "1 \<le> or_default (CollectionOptions.page limit_100) 1
            \<and> CollectionOptions.limit limit_100 = Some 100"
    by (simp add: limit_100_def or_default_def)
  from invalid_pagination_rejected
         [of limit_101 toLowerCase_ascii store0 products page_zero]
       invalid_pagination_rejected
         [of limit_100 toLowerCase_ascii store0 products page_zero]
       h1 h2 h3
  show ?thesis by blast
qed

section \<open>Partial update\<close>


lemma stored_field_store1:
  "stored_field store1 (ustr ''p1'') k = mouse_doc k"
  by (simp add: stored_field_def store1_products)






section \<open>The value returned by update\<close>



section \<open>Create, then read back\<close>

text \<open>
  With the store reachable, \<open>create\<close> followed by \<open>findOne\<close> of the new id returns the
  fields of the input unchanged. The value returned by \<open>create\<close> has a \<open>nameSearch\<close> only
  if the input had one; the value returned by \<open>findOne\<close> always has the stored one.
\<close>

lemma create_then_findOne:
  assumes "available 2 s"
  shows "\<exists>r s' d s''.
     create lc s nid dto = (Inr r, s') \<and> findOne s' nid = (Inr d, s'')
     \<and> r (ustr ''id'') = Some (VStr nid) \<and> d (ustr ''id'') = Some (VStr nid)
     \<and> d (ustr ''name'') = Some (VStr (CreateProductDto.name dto))
     \<and> d (ustr ''description'') = Some (VStr (CreateProductDto.description dto))
     \<and> d (ustr ''price'') = Some (VNum (of_int (CreateProductDto.price dto)))
     \<and> d (ustr ''stock'') = Some (VNum (of_int (CreateProductDto.stock dto)))
     \<and> d (ustr ''category'') = Some (VStr (CreateProductDto.category dto))
     \<and> r (ustr ''nameSearch'') = map_option VStr (CreateProductDto.nameSearch dto)
     \<and> d (ustr ''nameSearch'') = Some (VStr (lc (CreateProductDto.name dto)))"
proof -
  let ?data = "spread_create dto
                 ++ [ustr ''nameSearch'' \<mapsto> VStr (lc (CreateProductDto.name dto))]"
  from assms have "available (Suc (Suc 0)) s" by (simp add: numeral_2_eq_2)
  from create_ok [OF this, of lc nid dto] obtain s1 where
    c: "create lc s nid dto = (Inr ([ustr ''id'' \<mapsto> VStr nid] ++ spread_create dto), s1)"
       "colls s1 = (colls s)(products := insort_key fst (nid, ?data) (colls s products))"
       "available (Suc 0) s1"
    by blast
  have "map_of (colls s1 products) nid = Some ?data"
    using c(2) by (simp add: map_of_insort_key_fst)
  from findOne_ok [OF c(3) this] obtain s2 where
    f: "findOne s1 nid = (Inr (with_id nid ?data), s2)" by blast
  have r: "([ustr ''id'' \<mapsto> VStr nid] ++ spread_create dto) (ustr ''id'') = Some (VStr nid)"
          "([ustr ''id'' \<mapsto> VStr nid] ++ spread_create dto) (ustr ''nameSearch'')
             = map_option VStr (CreateProductDto.nameSearch dto)"
    by (simp_all add: map_add_def spread_create_fields split: option.splits)
  have d: "with_id nid ?data (ustr ''id'') = Some (VStr nid)"
          "with_id nid ?data (ustr ''name'') = Some (VStr (CreateProductDto.name dto))"
          "with_id nid ?data (ustr ''description'')
             = Some (VStr (CreateProductDto.description dto))"
          "with_id nid ?data (ustr ''price'') = Some (VNum (of_int (CreateProductDto.price dto)))"
          "with_id nid ?data (ustr ''stock'') = Some (VNum (of_int (CreateProductDto.stock dto)))"
          "with_id nid ?data (ustr ''category'') = Some (VStr (CreateProductDto.category dto))"
          "with_id nid ?data (ustr ''nameSearch'')
             = Some (VStr (lc (CreateProductDto.name dto)))"
    by (simp_all add: with_id_def map_add_def spread_create_fields)
  from c(1) f r d show ?thesis by simp
qed

text \<open>
  C4. The round trip returns the visible fields of the input, but the search field is not
  kept from the caller: after \<open>create(wireless_mouse)\<close> has stored the product under
  \<open>p1\<close>, \<open>findOne(p1)\<close> returns a product whose \<open>nameSearch\<close> is \<open>wireless mouse\<close>.
\<close>

theorem findOne_exposes_nameSearch:
  "map_sum id (\<lambda>d. d (ustr ''nameSearch'')) (fst (findOne store1 (ustr ''p1'')))
     = Inr (Some (VStr (ustr ''wireless mouse'')))"
proof -
  have "map_of (colls store1 products) (ustr ''p1'') = Some mouse_doc"
    by (simp add: store1_products)
  from findOne_ok [OF store1_available [of "Suc 0"] this] obtain s2 where
    "findOne store1 (ustr ''p1'') = (Inr (with_id (ustr ''p1'') mouse_doc), s2)" by blast
  then show ?thesis
    by (simp add: with_id_def map_add_def mouse_doc_nameSearch)
qed

section \<open>The search field and the name\<close>

text \<open>
  After a create the stored document has the input's name and the lowercase of that
  name as \<open>nameSearch\<close>; after an update whose input carries a non-empty name it has the
  new name and the lowercase of the new name.
\<close>

lemma nameSearch_derived:
  "(available 1 s \<longrightarrow>
      (\<exists>r s' d. create lc s nid dto = (Inr r, s')
         \<and> map_of (colls s' products) nid = Some d
         \<and> d (ustr ''name'') = Some (VStr (CreateProductDto.name dto))
         \<and> d (ustr ''nameSearch'') = Some (VStr (lc (CreateProductDto.name dto)))))
   \<and> (available 3 s \<and> map_of (colls s products) i = Some old
        \<and> UpdateProductDto.name udto = Present n \<and> n \<noteq> [] \<longrightarrow>
      (\<exists>r s' d. update lc s i udto = (Inr r, s')
         \<and> map_of (colls s' products) i = Some d
         \<and> d (ustr ''name'') = Some (VStr n)
         \<and> d (ustr ''nameSearch'') = Some (VStr (lc n))))"
proof (intro conjI impI)
  assume "available 1 s"
  then have av: "available (Suc 0) s" by simp
  let ?data = "spread_create dto
                 ++ [ustr ''nameSearch'' \<mapsto> VStr (lc (CreateProductDto.name dto))]"
  from create_ok [OF av, of lc nid dto] obtain s1 where
    c: "create lc s nid dto = (Inr ([ustr ''id'' \<mapsto> VStr nid] ++ spread_create dto), s1)"
       "colls s1 = (colls s)(products := insort_key fst (nid, ?data) (colls s products))"
    by blast
  have m: "map_of (colls s1 products) nid = Some ?data"
    using c(2) by (simp add: map_of_insort_key_fst)
  have f: "?data (ustr ''name'') = Some (VStr (CreateProductDto.name dto))"
          "?data (ustr ''nameSearch'') = Some (VStr (lc (CreateProductDto.name dto)))"
    by (simp_all add: map_add_def spread_create_fields)
  from c(1) m f
  show "\<exists>r s' d. create lc s nid dto = (Inr r, s')
         \<and> map_of (colls s' products) nid = Some d
         \<and> d (ustr ''name'') = Some (VStr (CreateProductDto.name dto))
         \<and> d (ustr ''nameSearch'') = Some (VStr (lc (CreateProductDto.name dto)))"
    by simp
next
  assume a: "available 3 s \<and> map_of (colls s products) i = Some old
        \<and> UpdateProductDto.name udto = Present n \<and> n \<noteq> []"
  then have av: "available (Suc (Suc (Suc 0))) s" by (simp add: numeral_3_eq_3)
  from a have old: "map_of (colls s products) i = Some old" by simp
  from a have "spread_update udto (ustr ''name'') = Some (VStr n)"
    by (simp add: spread_update_fields)
  then have ne: "spread_update udto \<noteq> Map.empty"
    by (rule map_nonempty [of "spread_update udto"])
  from update_ok [OF av old ne, of lc] obtain s3 where
    u: "update lc s i udto =
            (Inr ([ustr ''id'' \<mapsto> VStr i] ++ with_id i old ++ spread_update udto), s3)"
       "colls s3 = (colls s)(products :=
            map (\<lambda>(j, d). if j = i then (j, d ++ dataToUpdate lc udto) else (j, d))
              (colls s products))"
    by blast
  have m: "map_of (colls s3 products) i = Some (old ++ dataToUpdate lc udto)"
    using u(2) old by (simp add: map_of_patch)
  have f: "(old ++ dataToUpdate lc udto) (ustr ''name'') = Some (VStr n)"
          "(old ++ dataToUpdate lc udto) (ustr ''nameSearch'') = Some (VStr (lc n))"
    using a by (simp_all add: map_add_def dataToUpdate_apply spread_update_fields)
  from u(1) m f
  show "\<exists>r s' d. update lc s i udto = (Inr r, s')
         \<and> map_of (colls s' products) i = Some d
         \<and> d (ustr ''name'') = Some (VStr n)
         \<and> d (ustr ''nameSearch'') = Some (VStr (lc n))"
    by simp
qed

lemma null_name_facts:
  "validate_update null_name" "whitelist_update null_name = null_name"
  "spread_update null_name (ustr ''name'') = Some VNull"
  "spread_update null_name (ustr ''nameSearch'') = None"
  "UpdateProductDto.name null_name = Null"
  by (simp_all add: validate_update_def whitelist_update_def null_name_def if_present_def
        spread_update_fields)

text \<open>
  C5. The search field does go stale. On the store that holds the product
  \<open>Wireless Mouse\<close> under \<open>p1\<close>, with \<open>nameSearch\<close> \<open>wireless mouse\<close>, the request
  \<open>PATCH /products/p1\<close> with the body \<open>{"name": null}\<close> passes the validation pipe, and
  afterwards the stored name is \<open>null\<close> while the stored \<open>nameSearch\<close> is still
  \<open>wireless mouse\<close>.
\<close>

theorem null_name_leaves_nameSearch:
  "validate_update null_name
   \<and> stored_field store1 (ustr ''p1'') (ustr ''name'') = Some (VStr (ustr ''Wireless Mouse''))
   \<and> stored_field store1 (ustr ''p1'') (ustr ''nameSearch'')
       = Some (VStr (ustr ''wireless mouse''))
   \<and> stored_field
        (snd (ProductController_update toLowerCase_ascii store1 (ustr ''p1'') null_name))
        (ustr ''p1'') (ustr ''name'') = Some VNull
   \<and> stored_field
        (snd (ProductController_update toLowerCase_ascii store1 (ustr ''p1'') null_name))
        (ustr ''p1'') (ustr ''nameSearch'') = Some (VStr (ustr ''wireless mouse''))"
proof -
  have m: "map_of (colls store1 products) (ustr ''p1'') = Some mouse_doc"
    by (simp add: store1_products)
  have ne: "spread_update null_name \<noteq> Map.empty"
    by (rule map_nonempty [of "spread_update null_name", OF null_name_facts(3)])
  from update_ok [OF store1_available [of "Suc (Suc (Suc 0))"] m ne, of toLowerCase_ascii]
  obtain s3 where
    u: "colls s3 = (colls store1)(products :=
            map (\<lambda>(j, d). if j = ustr ''p1''
                            then (j, d ++ dataToUpdate toLowerCase_ascii null_name) else (j, d))
              (colls store1 products))"
       "snd (update toLowerCase_ascii store1 (ustr ''p1'') null_name) = s3"
    by auto
  have c: "snd (ProductController_update toLowerCase_ascii store1 (ustr ''p1'') null_name) = s3"
    by (simp add: ProductController_update_def null_name_facts u(2))
  have n0: "mouse_doc (ustr ''name'') = Some (VStr (ustr ''Wireless Mouse''))"
    by (simp add: mouse_doc_def wireless_mouse_def map_add_def spread_create_fields)
  have a: "stored_field s3 (ustr ''p1'') (ustr ''name'') = Some VNull"
    by (simp add: u(1) stored_field_def store1_products map_add_def dataToUpdate_apply
          null_name_facts)
  have b: "stored_field s3 (ustr ''p1'') (ustr ''nameSearch'')
             = Some (VStr (ustr ''wireless mouse''))"
    by (simp add: u(1) stored_field_def store1_products map_add_def dataToUpdate_apply
          null_name_facts mouse_doc_nameSearch)
  from null_name_facts(1) n0 a b show ?thesis
    by (simp add: c stored_field_store1 mouse_doc_nameSearch)
qed

section \<open>Login\<close>

lemma validateUser_match:
  "(uname, pass) \<in> configured_credentials cfg \<Longrightarrow>
     \<exists>user. validateUser cfg uname pass = Inr user \<and> AdminUser.username user = uname
        \<and> AdminUser.isAdmin user = True"
  by (auto simp: validateUser_def adminUsers_def configured_credentials_def)

lemma validateUser_no_match:
  "(uname, pass) \<notin> configured_credentials cfg \<Longrightarrow>
     validateUser cfg uname pass = Inl (UnauthorizedException (ustr ''Invalid credentials''))"
  by (auto simp: validateUser_def adminUsers_def configured_credentials_def)

text \<open>
  C8. \<open>login\<close> succeeds exactly when the username and password are one of the two
  configured pairs. It then returns the username with the token that \<open>sign\<close> makes of
  the payload \<open>{username, isAdmin: true}\<close>. Every other pair fails with the one
  \<open>UnauthorizedException\<close>, message \<open>Invalid credentials\<close>, whether the username is
  unknown or the password wrong.
\<close>

theorem login_iff_configured:
  "login sign cfg uname pass =
     (if (uname, pass) \<in> configured_credentials cfg
      then Inr \<lparr>access_token = sign \<lparr>JwtPayload.username = uname, isAdmin = True\<rparr>,
                username = uname\<rparr>
      else Inl (UnauthorizedException (ustr ''Invalid credentials'')))"
proof (cases "(uname, pass) \<in> configured_credentials cfg")
  case True
  from validateUser_match [OF this] obtain user where
    "validateUser cfg uname pass = Inr user" "AdminUser.username user = uname"
    "AdminUser.isAdmin user = True" by blast
  with True show ?thesis by (simp add: login_def Let_def)
next
  case False
  from validateUser_no_match [OF this] False show ?thesis by (simp add: login_def)
qed

theorem login_iff_configured_witness:
  "(ustr ''admin1'', ustr ''secret-one'') \<in> configured_credentials example_config
   \<and> login example_sign example_config (ustr ''admin1'') (ustr ''secret-one'')
       = Inr \<lparr>access_token = ustr ''jwt:admin1:admin'', username = ustr ''admin1''\<rparr>
   \<and> (ustr ''admin1'', ustr ''wrong'') \<notin> configured_credentials example_config
   \<and> login example_sign example_config (ustr ''admin1'') (ustr ''wrong'')
       = Inl (UnauthorizedException (ustr ''Invalid credentials''))
   \<and> (ustr ''nobody'', ustr ''secret-one'') \<notin> configured_credentials example_config
   \<and> login example_sign example_config (ustr ''nobody'') (ustr ''secret-one'')
       = Inl (UnauthorizedException (ustr ''Invalid credentials''))"
proof -
  have c: "configured_credentials example_config
             = {(ustr ''admin1'', ustr ''secret-one''), (ustr ''root'', ustr ''secret-two'')}"
    by (simp add: configured_credentials_def example_config_def or_else_def; simp add: ustr_def)
  have h1: "(ustr ''admin1'', ustr ''secret-one'') \<in> configured_credentials example_config"
    by (simp add: c)
  have h2: "(ustr ''admin1'', ustr ''wrong'') \<notin> configured_credentials example_config"
    by (simp add: c)
  have h3: "(ustr ''nobody'', ustr ''secret-one'') \<notin> configured_credentials example_config"
    by (simp add: c)
  have t: "example_sign \<lparr>JwtPayload.username = ustr ''admin1'', isAdmin = True\<rparr>
             = ustr ''jwt:admin1:admin''"
    by (simp add: example_sign_def ustr_def)
  from login_iff_configured [of example_sign example_config "ustr ''admin1''" "ustr ''secret-one''"]
       login_iff_configured [of example_sign example_config "ustr ''admin1''" "ustr ''wrong''"]
       login_iff_configured [of example_sign example_config "ustr ''nobody''" "ustr ''secret-one''"]
       h1 h2 h3 t
  show ?thesis by simp
qed

section \<open>The access guard\<close>

text \<open>
  C9. When the operation is tagged public the guard allows the request as it is, for any
  authorization header and any verification function, and the handler runs. Otherwise the
  handler runs only if the authorization header carries a bearer token that verifies,
  and then on the context with the decoded identity attached; a request whose token is
  missing, malformed or rejected by the verification is answered with \<open>Unauthorized\<close>
  and the handler is not run.
\<close>

theorem guard_gates_handlers:
  "(getAllAndOverride ctx = Some True \<longrightarrow>
      canActivate verify ctx = Inr (True, ctx) \<and> guarded verify handler ctx = Inr (handler ctx))
   \<and> (getAllAndOverride ctx \<noteq> Some True \<longrightarrow>
        (\<forall>r. guarded verify handler ctx = Inr r \<longrightarrow>
           (\<exists>h t identity. authorization ctx = Some h \<and> bearer_token h = Some t
              \<and> verify t = Some identity \<and> r = handler (ctx\<lparr>user := Some identity\<rparr>)))
      \<and> ((authorization ctx = None
           \<or> (\<exists>h. authorization ctx = Some h \<and> bearer_token h = None)
           \<or> (\<exists>h t. authorization ctx = Some h \<and> bearer_token h = Some t \<and> verify t = None))
          \<longrightarrow> canActivate verify ctx = Inl (UnauthorizedException (ustr ''Unauthorized''))
            \<and> guarded verify handler ctx = Inl (UnauthorizedException (ustr ''Unauthorized''))))"
  by (auto simp: canActivate_def guarded_def JwtAuthGuard_canActivate_def Let_def
           split: option.splits)

theorem guard_gates_handlers_witness:
  "getAllAndOverride login_request = Some True
   \<and> guarded example_verify user login_request = Inr None
   \<and> getAllAndOverride anonymous_request \<noteq> Some True
   \<and> authorization anonymous_request = None
   \<and> guarded example_verify user anonymous_request
       = Inl (UnauthorizedException (ustr ''Unauthorized''))
   \<and> getAllAndOverride forged_request \<noteq> Some True
   \<and> guarded example_verify user forged_request
       = Inl (UnauthorizedException (ustr ''Unauthorized''))
   \<and> getAllAndOverride admin_request \<noteq> Some True
   \<and> guarded example_verify user admin_request
       = Inr (Some \<lparr>JwtPayload.username = ustr ''admin1'', isAdmin = True\<rparr>)"
proof -
  have p: "getAllAndOverride login_request = Some True"
    by (simp add: getAllAndOverride_def login_request_def)
  have a: "getAllAndOverride anonymous_request \<noteq> Some True"
          "authorization anonymous_request = None"
    by (simp_all add: getAllAndOverride_def anonymous_request_def)
  have f: "getAllAndOverride forged_request \<noteq> Some True"
          "authorization forged_request = Some (ustr ''Bearer jwt:admin1:user'')"
          "bearer_token (ustr ''Bearer jwt:admin1:user'') = Some (ustr ''jwt:admin1:user'')"
          "example_verify (ustr ''jwt:admin1:user'') = None"
    by (simp_all add: getAllAndOverride_def forged_request_def bearer_token_def
          example_verify_def ustr_def)
  have g: "getAllAndOverride admin_request \<noteq> Some True"
    by (simp add: getAllAndOverride_def admin_request_def)
  have ok: "guarded example_verify user admin_request
       = Inr (Some \<lparr>JwtPayload.username = ustr ''admin1'', isAdmin = True\<rparr>)"
    by (simp add: guarded_def canActivate_def JwtAuthGuard_canActivate_def
          getAllAndOverride_def admin_request_def bearer_token_def example_verify_def ustr_def)
  note inst = guard_gates_handlers [of login_request example_verify user]
              guard_gates_handlers [of anonymous_request example_verify user]
              guard_gates_handlers [of forged_request example_verify user]
              guard_gates_handlers [of admin_request example_verify user]
  have l: "guarded example_verify user login_request = Inr None"
    using inst(1) p by (simp add: login_request_def)
  have an: "guarded example_verify user anonymous_request
       = Inl (UnauthorizedException (ustr ''Unauthorized''))"
    using inst(2) a by simp
  have fo: "guarded example_verify user forged_request
       = Inl (UnauthorizedException (ustr ''Unauthorized''))"
    using inst(3) f by simp
  have ad: "\<exists>h t identity. authorization admin_request = Some h \<and> bearer_token h = Some t
              \<and> example_verify t = Some identity"
    using inst(4) g ok by blast
  from p a f(1) g l an fo ok show ?thesis by simp
qed

section \<open>The list operation\<close>

text \<open>Two strings bound a third from below and, with one character appended, from above
  exactly when the first is a prefix of the third and the character after the prefix, if
  there is one, is below the appended one, or equal to it and the last.\<close>

lemma range_is_prefix:
  fixes p t :: "nat list"
  shows "(p \<le> t \<and> t \<le> p @ [h]) \<longleftrightarrow>
     (prefix p t \<and> (case drop (length p) t of [] \<Rightarrow> True | c # r \<Rightarrow> c < h \<or> (c = h \<and> r = [])))"
proof (induction p arbitrary: t)
  case Nil
  show ?case by (cases t) auto
next
  case (Cons a p)
  show ?case
  proof (cases t)
    case Nil
    then show ?thesis by simp
  next
    case (Cons b t')
    show ?thesis
    proof (cases "a = b")
      case True
      with Cons Cons.IH [of t'] show ?thesis by simp
    next
      case False
      with Cons show ?thesis by auto
    qed
  qed
qed

lemma below_sentinel_tail:
  assumes "\<forall>c \<in> set t. c < h"
  shows "(case drop n t of [] \<Rightarrow> True | c # r \<Rightarrow> c < h \<or> (c = h \<and> r = []))"
proof (cases "drop n t")
  case Nil
  then show ?thesis by simp
next
  case (Cons c r)
  then have "c \<in> set (drop n t)" by simp
  then have "c \<in> set t" by (rule in_set_dropD)
  with assms Cons show ?thesis by simp
qed

text \<open>The where clauses that each filter adds, and the filter of the query that
  \<open>findAll\<close> builds.\<close>

lemma name_clauses:
  "list_all (holds d)
     (q_where (apply_filter lc q (ustr ''name'', Some (VStr f))))
   = (list_all (holds d) (q_where q) \<and> name_filter lc f d)"
  by (auto simp: apply_filter_def where_clause_def name_filter_def Let_def
           split: option.splits fvalue.splits)

lemma query_get_ok:
  "available (Suc n) s \<Longrightarrow>
     \<exists>s1. query_get s q = (Inr (paged q (ordered q (matching q (colls s (q_collection q))))), s1)
       \<and> colls s1 = colls s \<and> calls s1 = calls s @ [QueryGet (q_collection q)]
       \<and> available n s1"
  using send_ok [of n s "QueryGet (q_collection q)"] by (auto simp: query_get_def)

lemma apply_filter_keeps:
  "q_collection (apply_filter lc q e) = q_collection q"
  "q_orderBy (apply_filter lc q e) = q_orderBy q"
  "q_limit (apply_filter lc q e) = q_limit q"
  "q_offset (apply_filter lc q e) = q_offset q"
  by (auto simp: apply_filter_def where_clause_def Let_def split: prod.splits option.splits)

lemma foldl_apply_filter_keeps:
  "q_collection (foldl (apply_filter lc) q es) = q_collection q"
  "q_orderBy (foldl (apply_filter lc) q es) = q_orderBy q"
  "q_limit (foldl (apply_filter lc) q es) = q_limit q"
  "q_offset (foldl (apply_filter lc) q es) = q_offset q"
  by (induction es arbitrary: q) (simp_all add: apply_filter_keeps)

lemma category_clauses:
  "list_all (holds d)
     (q_where (apply_filter lc q (ustr ''category'', Some (VStr c))))
   = (list_all (holds d) (q_where q) \<and> d (ustr ''category'') = Some (VStr c))"
  by (auto simp: apply_filter_def where_clause_def split: option.splits)

lemma minPrice_clauses:
  "list_all (holds d)
     (q_where (apply_filter lc q (ustr ''minPrice'', Some (VNum m))))
   = (list_all (holds d) (q_where q) \<and> price_at_least m d)"
  by (auto simp: apply_filter_def where_clause_def price_at_least_def
           split: option.splits fvalue.splits)

lemma maxPrice_clauses:
  "list_all (holds d)
     (q_where (apply_filter lc q (ustr ''maxPrice'', Some (VNum m))))
   = (list_all (holds d) (q_where q) \<and> price_at_most m d)"
  by (auto simp: apply_filter_def where_clause_def price_at_most_def
           split: option.splits fvalue.splits)

lemma filters_select:
  "list_all (holds d)
     (q_where (foldl (apply_filter lc) (collection_query c) (build_filters q)))
   = selected lc q d"
proof -
  have base: "list_all (holds d) (q_where (collection_query c))"
    by (simp add: collection_query_def)
  show ?thesis
    by (cases "QueryProductDto.name q"; cases "QueryProductDto.category q";
        cases "minPrice q"; cases "maxPrice q")
       (simp_all add: build_filters_def truthy_def selected_def base
          name_clauses category_clauses minPrice_clauses maxPrice_clauses)
qed

lemma matching_cong:
  "q_where q' = q_where q \<Longrightarrow> matching q' docs = matching q docs"
  by (simp add: matching_def)

text \<open>With valid pagination and a reachable store the two queries succeed: the first
  counts, the second sorts and cuts the page.\<close>

lemma getCollectionWithOptions_ok:
  fixes options :: CollectionOptions and lc :: "ustring \<Rightarrow> ustring" and c :: ustring
  defines "pg \<equiv> or_default (CollectionOptions.page options) 1"
    and "sz \<equiv> or_default (CollectionOptions.limit options) 10"
    and "sb \<equiv> or_default (CollectionOptions.sortBy options) (ustr ''name'')"
    and "dir \<equiv> or_default (CollectionOptions.sortOrder options) ASC"
  defines "Q \<equiv> foldl (apply_filter lc) (collection_query c)
                  (or_default (CollectionOptions.filters options) [])"
  assumes valid: "1 \<le> pg" "1 \<le> sz" "sz \<le> 100"
    and av: "available (Suc (Suc n)) s"
    and path: "sb = [] \<or> validateFieldPath sb = None"
  shows "\<exists>s2. getCollectionWithOptions lc s c options =
           (Inr (map (\<lambda>(i, d). with_id i d)
                   (take (nat sz) (drop (nat ((pg - 1) * sz))
                      (ordered (if sb \<noteq> [] then Q\<lparr>q_orderBy := Some (sb, dir)\<rparr> else Q)
                         (matching Q (colls s c))))),
                 int (length (matching Q (colls s c)))), s2)
         \<and> colls s2 = colls s \<and> calls s2 = calls s @ [QueryGet c, QueryGet c]
         \<and> available n s2"
proof -
  have Qf: "q_collection Q = c" "q_orderBy Q = None" "q_limit Q = None" "q_offset Q = None"
    by (simp_all add: Q_def foldl_apply_filter_keeps collection_query_def)
  from query_get_ok [OF av, of Q] Qf obtain s1 where
    g1: "query_get s Q = (Inr (matching Q (colls s c)), s1)" "colls s1 = colls s"
        "calls s1 = calls s @ [QueryGet c]" "available (Suc n) s1"
    by (auto simp: paged_def ordered_def)
  define Q1 where "Q1 = (if sb \<noteq> [] then Q\<lparr>q_orderBy := Some (sb, dir)\<rparr> else Q)"
  have ob: "sb \<noteq> [] \<Longrightarrow> orderBy Q sb dir = Inr Q1" "sb = [] \<Longrightarrow> Q1 = Q"
    using path by (auto simp: orderBy_def Q1_def)
  define Q3 where "Q3 = (if (pg - 1) * sz > 0
                         then offset_by (limit_to Q1 sz) ((pg - 1) * sz)
                         else limit_to Q1 sz)"
  have Q3f: "q_collection Q3 = c" "q_where Q3 = q_where Q" "q_orderBy Q3 = q_orderBy Q1"
    by (simp_all add: Q3_def Q1_def offset_by_def limit_to_def Qf)
  have pgd: "paged Q3 xs = take (nat sz) (drop (nat ((pg - 1) * sz)) xs)" for xs
    by (simp add: Q3_def Q1_def paged_def offset_by_def limit_to_def Qf)
  have ord: "ordered Q3 xs = ordered Q1 xs" for xs
    by (simp add: ordered_def Q3f)
  from query_get_ok [OF g1(4), of Q3] obtain s2 where
    g2: "query_get s1 Q3 = (Inr (paged Q3 (ordered Q3 (matching Q3 (colls s1 c)))), s2)"
        "colls s2 = colls s1" "calls s2 = calls s1 @ [QueryGet c]" "available n s2"
    by (auto simp: Q3f)
  have m3: "matching Q3 xs = matching Q xs" for xs
    using Q3f(2) by (simp add: matching_def)
  have dir': "(if dir = DESC then DESC else ASC) = dir" by (cases dir) simp_all
  have res: "getCollectionWithOptions lc s c options =
      (Inr (map (\<lambda>(i, d). with_id i d) (paged Q3 (ordered Q3 (matching Q3 (colls s1 c)))),
            int (length (matching Q (colls s c)))), s2)"
    using valid g1(1) g2(1)
    by (auto simp: getCollectionWithOptions_def Let_def dir' ob Q3_def
          pg_def [symmetric] sz_def [symmetric] sb_def [symmetric] dir_def [symmetric]
          Q_def [symmetric])
  show ?thesis
    using res g1(2,3) g2(2,3,4) by (simp add: pgd ord m3 Q1_def)
qed

lemma findAll_ok:
  fixes q :: QueryProductDto and lc :: "ustring \<Rightarrow> ustring"
  defines "pg \<equiv> or_default (QueryProductDto.page q) 1"
    and "sz \<equiv> or_default (QueryProductDto.limit q) 10"
    and "sb \<equiv> or_default (QueryProductDto.sortBy q) (ustr ''name'')"
    and "dr \<equiv> or_default (QueryProductDto.sortOrder q) ASC"
  assumes valid: "1 \<le> pg" "1 \<le> sz" "sz \<le> 100"
    and av: "available (Suc (Suc n)) s"
    and path: "sb = [] \<or> validateFieldPath sb = None"
  shows "\<exists>s2. findAll lc s q =
           (Inr \<lparr>items = map (\<lambda>(i, d). with_id i d)
                    (take (nat sz) (drop (nat ((pg - 1) * sz)) (arranged sb dr (hits lc q s)))),
                 total = int (length (hits lc q s)), page = pg, limit = sz,
                 totalPages = Math_ceil_div (int (length (hits lc q s))) sz,
                 hasNextPage = (pg < Math_ceil_div (int (length (hits lc q s))) sz),
                 hasPreviousPage = (pg > 1)\<rparr>, s2)
         \<and> colls s2 = colls s \<and> calls s2 = calls s @ [QueryGet products, QueryGet products]
         \<and> available n s2"
proof -
  let ?o = "\<lparr>CollectionOptions.page = Some pg, limit = Some sz,
             filters = Some (build_filters q),
             sortBy = QueryProductDto.sortBy q,
             sortOrder = QueryProductDto.sortOrder q\<rparr>"
  let ?Q = "foldl (apply_filter lc) (collection_query products) (build_filters q)"
  have m: "matching ?Q (colls s products) = hits lc q s"
    by (simp add: matching_def hits_def filters_select)
  have o: "ordered (if sb \<noteq> [] then ?Q\<lparr>q_orderBy := Some (sb, dr)\<rparr> else ?Q) xs
             = arranged sb dr xs" for xs
    by (simp add: ordered_def arranged_def foldl_apply_filter_keeps collection_query_def)
  have p: "or_default (CollectionOptions.sortBy ?o) (ustr ''name'') = []
           \<or> validateFieldPath (or_default (CollectionOptions.sortBy ?o) (ustr ''name'')) = None"
    using path by (simp add: or_default_def sb_def)
  have v: "1 \<le> or_default (CollectionOptions.page ?o) 1"
          "1 \<le> or_default (CollectionOptions.limit ?o) 10"
          "or_default (CollectionOptions.limit ?o) 10 \<le> 100"
    using valid by (simp_all add: or_default_def)
  have sel: "or_default (CollectionOptions.page ?o) 1 = pg"
            "or_default (CollectionOptions.limit ?o) 10 = sz"
            "or_default (CollectionOptions.filters ?o) [] = build_filters q"
            "or_default (CollectionOptions.sortBy ?o) (ustr ''name'') = sb"
            "or_default (CollectionOptions.sortOrder ?o) ASC = dr"
    by (simp_all add: or_default_def sb_def dr_def)
  from getCollectionWithOptions_ok [OF v av p, of lc products, unfolded sel m o]
  obtain s2 where
    g: "getCollectionWithOptions lc s products ?o =
          (Inr (map (\<lambda>(i, d). with_id i d)
                  (take (nat sz) (drop (nat ((pg - 1) * sz)) (arranged sb dr (hits lc q s)))),
                int (length (hits lc q s))), s2)"
       "colls s2 = colls s" "calls s2 = calls s @ [QueryGet products, QueryGet products]"
       "available n s2"
    by blast
  show ?thesis
    using g by (simp add: findAll_def Let_def pg_def [symmetric] sz_def [symmetric])
qed

lemma arranged_perm:
  assumes "sb \<noteq> []"
  shows "mset (arranged sb dr docs) = mset (filter (\<lambda>doc. field_at sb doc \<noteq> None) docs)"
  using assms by (cases dr) (simp_all add: arranged_def ordered_def)

lemma arranged_unsorted: "arranged [] dr docs = docs"
  by (simp add: arranged_def ordered_def)

lemma length_arranged: "length (arranged sb dr docs) \<le> length docs"
proof (cases "sb = []")
  case True
  then show ?thesis by (simp add: arranged_unsorted)
next
  case False
  from arranged_perm [OF this, of dr docs]
  have "length (arranged sb dr docs) = length (filter (\<lambda>doc. field_at sb doc \<noteq> None) docs)"
    by (metis size_mset)
  then show ?thesis by simp
qed

lemma arranged_sorted:
  assumes "sb \<noteq> []"
  shows "sorted_by sb dr (arranged sb dr docs)"
proof -
  let ?k = "\<lambda>doc. the (field_at sb doc)"
  let ?xs = "sort_key ?k (filter (\<lambda>doc. field_at sb doc \<noteq> None) docs)"
  have "sorted (map ?k ?xs)" by (rule sorted_sort_key)
  then have up: "sorted_wrt (\<lambda>a b. the (field_at sb a) \<le> the (field_at sb b)) ?xs"
    by (simp add: sorted_map)
  then have down: "sorted_wrt (\<lambda>a b. the (field_at sb b) \<le> the (field_at sb a)) (rev ?xs)"
    by (simp add: sorted_wrt_rev)
  from assms up down show ?thesis
    by (cases dr) (simp_all add: arranged_def ordered_def sorted_by_def)
qed

lemma field_paths [simp]:
  "validateFieldPath (ustr ''name'') = None"
  "validateFieldPath (ustr ''price'') = None"
  "validateFieldPath (ustr ''colour'') = None"
  "field_at (ustr ''name'') doc = snd doc (ustr ''name'')"
  "field_at (ustr ''price'') doc = snd doc (ustr ''price'')"
  "field_at (ustr ''colour'') doc = snd doc (ustr ''colour'')"
  by (simp_all add: validateFieldPath_def field_at_def full_stop_def ustr_def)

lemma hits_ignores_pagination:
  "hits lc (q\<lparr>QueryProductDto.page := p, QueryProductDto.limit := l\<rparr>) s = hits lc q s"
  by (simp add: hits_def selected_def)

lemma shop_facts:
  "colls shop products = [(ustr ''p1'', stored wireless_mouse), (ustr ''p2'', stored usb_cable),
                    (ustr ''p3'', stored wire_basket)]"
  "available n shop"
  by (simp_all add: shop_def available_def)

lemma by_colour_params:
  "page_of by_colour = 1" "limit_of by_colour = 10"
  "sortBy_of by_colour = ustr ''colour''" "sortOrder_of by_colour = ASC"
  "or_default (QueryProductDto.page by_colour) 1 = 1"
  "or_default (QueryProductDto.limit by_colour) 10 = 10"
  "or_default (QueryProductDto.sortBy by_colour) (ustr ''name'') = ustr ''colour''"
  "or_default (QueryProductDto.sortOrder by_colour) ASC = ASC"
  by (simp_all add: page_of_def limit_of_def sortBy_of_def sortOrder_of_def by_colour_def
        or_default_def)

lemma shop_hits_by_colour:
  "hits toLowerCase_ascii by_colour shop
     = [(ustr ''p1'', stored wireless_mouse), (ustr ''p2'', stored usb_cable),
        (ustr ''p3'', stored wire_basket)]"
  by (simp add: hits_def shop_facts selected_def by_colour_def)

lemma stored_no_colour: "stored dto (ustr ''colour'') = None"
  by (simp add: stored_def spread_create_def map_add_def opt_field_def split: option.splits)

text \<open>
  C1, as the claim states it, fails: the query with page 1 and limit 10 that sorts by
  \<open>colour\<close> is valid and selects the three products of the shop, and \<open>findAll\<close> returns
  no item at all, with a total of 3.
\<close>

theorem list_sorted_by_missing_field_counterexample:
  "1 \<le> page_of by_colour \<and> 1 \<le> limit_of by_colour \<and> limit_of by_colour \<le> 100
   \<and> length (hits toLowerCase_ascii by_colour shop) = 3
   \<and> listed (findAll toLowerCase_ascii shop by_colour) = Inr ([], 3)"
proof -
  have a: "arranged (ustr ''colour'') ASC
              [(ustr ''p1'', stored wireless_mouse), (ustr ''p2'', stored usb_cable),
               (ustr ''p3'', stored wire_basket)] = []"
    by (simp add: arranged_def ordered_def stored_no_colour)
  from findAll_ok [where q = by_colour and s = shop and n = 0 and lc = toLowerCase_ascii]
       shop_facts(2) [of "Suc (Suc 0)"]
  obtain s2 where
    "findAll toLowerCase_ascii shop by_colour =
       (Inr \<lparr>items = [], total = 3, page = 1, limit = 10,
             totalPages = Math_ceil_div 3 10, hasNextPage = (1 < Math_ceil_div 3 10),
             hasPreviousPage = False\<rparr>, s2)"
    by (auto simp: by_colour_params a shop_hits_by_colour)
  then have "listed (findAll toLowerCase_ascii shop by_colour) = Inr ([], 3)"
    by (simp add: listed_def)
  then show ?thesis by (simp add: by_colour_params shop_hits_by_colour)
qed

text \<open>
  C1, amended. For a query with a page of at least 1 and a limit from 1 to 100, a sort
  field that is empty or a field path that \<open>orderBy\<close> accepts, and a reachable store,
  \<open>findAll\<close> succeeds and: the items are, each with its id merged in, those selected
  documents that have the sort field, sorted by it in the requested direction (with an
  empty sort field: all selected documents, in the order of the store), with
  (page - 1) * limit of them skipped and at most limit taken; the total is the number of
  all selected documents, whatever the page and the limit; the total pages are the
  ceiling of total / limit, there is a next page exactly when the page is below the
  total pages, and a previous page exactly when the page is above 1; a page beyond the
  data gives no items; and the store is not changed.
\<close>

theorem list_returns_sorted_page:
  assumes "1 \<le> page_of q" and "1 \<le> limit_of q" and "limit_of q \<le> 100"
    and "available 2 s"
    and "sortBy_of q = [] \<or> validateFieldPath (sortBy_of q) = None"
  shows "\<exists>resp s' all.
     findAll lc s q = (Inr resp, s')
     \<and> (sortBy_of q \<noteq> [] \<longrightarrow>
          mset all = mset (filter (\<lambda>doc. field_at (sortBy_of q) doc \<noteq> None) (hits lc q s))
          \<and> sorted_by (sortBy_of q) (sortOrder_of q) all)
     \<and> (sortBy_of q = [] \<longrightarrow> all = hits lc q s)
     \<and> items resp = map (\<lambda>(i, d). [ustr ''id'' \<mapsto> VStr i] ++ d)
          (take (nat (limit_of q)) (drop (nat ((page_of q - 1) * limit_of q)) all))
     \<and> total resp = int (length (hits lc q s))
     \<and> (\<forall>p l. hits lc (q\<lparr>QueryProductDto.page := p, QueryProductDto.limit := l\<rparr>) s
                = hits lc q s)
     \<and> totalPages resp = \<lceil>rat_of_int (total resp) / rat_of_int (limit_of q)\<rceil>
     \<and> hasNextPage resp = (page_of q < totalPages resp)
     \<and> hasPreviousPage resp = (page_of q > 1)
     \<and> int (length (items resp)) \<le> limit_of q
     \<and> (total resp \<le> (page_of q - 1) * limit_of q \<longrightarrow> items resp = [])
     \<and> colls s' = colls s"
proof -
  let ?all = "arranged (sortBy_of q) (sortOrder_of q) (hits lc q s)"
  let ?items = "map (\<lambda>(i, d). with_id i d)
          (take (nat (limit_of q)) (drop (nat ((page_of q - 1) * limit_of q)) ?all))"
  from assms(4) have av: "available (Suc (Suc 0)) s" by (simp add: numeral_2_eq_2)
  from findAll_ok [OF assms(1-3) [unfolded page_of_def limit_of_def] av
         assms(5) [unfolded sortBy_of_def], of lc,
         folded page_of_def limit_of_def sortBy_of_def sortOrder_of_def]
  obtain s2 where
    f: "findAll lc s q =
           (Inr \<lparr>items = ?items,
                 total = int (length (hits lc q s)), page = page_of q, limit = limit_of q,
                 totalPages = Math_ceil_div (int (length (hits lc q s))) (limit_of q),
                 hasNextPage = (page_of q < Math_ceil_div (int (length (hits lc q s))) (limit_of q)),
                 hasPreviousPage = (page_of q > 1)\<rparr>, s2)"
       "colls s2 = colls s"
    by blast
  have wid: "(\<lambda>(i, d). with_id i d) = (\<lambda>(i, d). [ustr ''id'' \<mapsto> VStr i] ++ d)"
    by (simp add: with_id_def)
  have perm: "sortBy_of q \<noteq> [] \<longrightarrow>
          mset ?all = mset (filter (\<lambda>doc. field_at (sortBy_of q) doc \<noteq> None) (hits lc q s))
          \<and> sorted_by (sortBy_of q) (sortOrder_of q) ?all"
    by (simp add: arranged_perm arranged_sorted)
  have plain: "sortBy_of q = [] \<longrightarrow> ?all = hits lc q s"
    by (simp add: arranged_unsorted)
  have len: "int (length ?items) \<le> limit_of q"
    using assms(2) by simp
  have beyond: "int (length (hits lc q s)) \<le> (page_of q - 1) * limit_of q \<longrightarrow> ?items = []"
    using length_arranged [of "sortBy_of q" "sortOrder_of q" "hits lc q s"] by auto
  show ?thesis
    apply (rule exI [where x = "\<lparr>items = ?items,
                 total = int (length (hits lc q s)), page = page_of q, limit = limit_of q,
                 totalPages = Math_ceil_div (int (length (hits lc q s))) (limit_of q),
                 hasNextPage = (page_of q < Math_ceil_div (int (length (hits lc q s))) (limit_of q)),
                 hasPreviousPage = (page_of q > 1)\<rparr>"])
    apply (rule exI [where x = s2])
    apply (rule exI [where x = ?all])
    using f perm plain len beyond
    apply (simp add: Math_ceil_div_def hits_ignores_pagination wid)
    done
qed

lemma stored_apply:
  "stored dto k =
     (if k = ustr ''nameSearch'' then Some (VStr (toLowerCase_ascii (CreateProductDto.name dto)))
      else spread_create dto k)"
  by (simp add: stored_def map_add_def)

lemma lower_examples:
  "toLowerCase_ascii (ustr ''Wireless Mouse'') = ustr ''wireless mouse''"
  "toLowerCase_ascii (ustr ''USB Cable'') = ustr ''usb cable''"
  "toLowerCase_ascii (ustr ''Wire Basket'') = ustr ''wire basket''"
  "toLowerCase_ascii (ustr ''wire'') = ustr ''wire''"
  "toLowerCase_ascii (ustr ''mouse'') = ustr ''mouse''"
  "toLowerCase_ascii (ustr ''Wire'' @ [63744]) = ustr ''wire'' @ [63744]"
  by (simp_all add: toLowerCase_ascii_def ustr_def)

lemma selected_by_name:
  "f \<noteq> [] \<Longrightarrow> selected lc (by_name f) d = name_filter lc f d"
  by (simp add: selected_def by_name_def)

lemma by_name_defaults:
  "or_default (QueryProductDto.page (by_name f)) 1 = 1"
  "or_default (QueryProductDto.limit (by_name f)) 10 = 10"
  "or_default (QueryProductDto.sortBy (by_name f)) (ustr ''name'') = ustr ''name''"
  "or_default (QueryProductDto.sortOrder (by_name f)) ASC = ASC"
  by (simp_all add: by_name_def or_default_def)

lemma shop_names:
  "CreateProductDto.name wireless_mouse = ustr ''Wireless Mouse''"
  "CreateProductDto.name usb_cable = ustr ''USB Cable''"
  "CreateProductDto.name wire_basket = ustr ''Wire Basket''"
  by (simp_all add: wireless_mouse_def usb_cable_def wire_basket_def)

lemma cheap_first_params:
  "page_of cheap_first = 2" "limit_of cheap_first = 1"
  "sortBy_of cheap_first = ustr ''price''" "sortOrder_of cheap_first = DESC"
  by (simp_all add: page_of_def limit_of_def sortBy_of_def sortOrder_of_def cheap_first_def
        or_default_def)

lemma shop_hits_cheap_first:
  "hits toLowerCase_ascii cheap_first shop
     = [(ustr ''p1'', stored wireless_mouse), (ustr ''p2'', stored usb_cable)]"
  by (simp add: hits_def shop_facts selected_def cheap_first_def price_at_least_def
        stored_apply spread_create_fields wireless_mouse_def usb_cable_def wire_basket_def)

theorem list_returns_sorted_page_witness:
  "1 \<le> page_of cheap_first \<and> 1 \<le> limit_of cheap_first \<and> limit_of cheap_first \<le> 100
   \<and> available 2 shop \<and> validateFieldPath (sortBy_of cheap_first) = None
   \<and> (\<exists>resp s'.
        findAll toLowerCase_ascii shop cheap_first = (Inr resp, s')
        \<and> items resp = [[ustr ''id'' \<mapsto> VStr (ustr ''p2'')] ++ stored usb_cable]
        \<and> total resp = 2
        \<and> totalPages resp = 2
        \<and> hasNextPage resp = False
        \<and> hasPreviousPage resp = True)"
proof -
  let ?a = "(ustr ''p1'', stored wireless_mouse)" and ?b = "(ustr ''p2'', stored usb_cable)"
  have h1: "1 \<le> page_of cheap_first" and h2: "1 \<le> limit_of cheap_first"
    and h3: "limit_of cheap_first \<le> 100"
    by (simp_all add: cheap_first_params)
  have h4: "available 2 shop" by (rule shop_facts)
  have h5: "sortBy_of cheap_first \<noteq> []" by (simp add: cheap_first_params)
  have h6: "validateFieldPath (sortBy_of cheap_first) = None" by (simp add: cheap_first_params)
  then have h7: "sortBy_of cheap_first = [] \<or> validateFieldPath (sortBy_of cheap_first) = None"
    by simp
  have c: "\<lceil>rat_of_int 2 / rat_of_int 1\<rceil> = (2::int)" by simp
  from list_returns_sorted_page [OF h1 h2 h3 h4 h7, of toLowerCase_ascii]
  obtain resp s' "all" where
    r: "findAll toLowerCase_ascii shop cheap_first = (Inr resp, s')"
       "sortBy_of cheap_first \<noteq> [] \<longrightarrow>
          mset all = mset (filter (\<lambda>doc. field_at (sortBy_of cheap_first) doc \<noteq> None)
                             (hits toLowerCase_ascii cheap_first shop))
          \<and> sorted_by (sortBy_of cheap_first) (sortOrder_of cheap_first) all"
       "items resp = map (\<lambda>(i, d). [ustr ''id'' \<mapsto> VStr i] ++ d)
          (take (nat (limit_of cheap_first))
             (drop (nat ((page_of cheap_first - 1) * limit_of cheap_first)) all))"
       "total resp = int (length (hits toLowerCase_ascii cheap_first shop))"
       "totalPages resp = \<lceil>rat_of_int (total resp) / rat_of_int (limit_of cheap_first)\<rceil>"
       "hasNextPage resp = (page_of cheap_first < totalPages resp)"
       "hasPreviousPage resp = (page_of cheap_first > 1)"
    by (elim exE conjE) (rule that, assumption+)
  from r(2) h5 have m: "mset all = mset [?a, ?b]" "sorted_by (ustr ''price'') DESC all"
    by (simp_all add: cheap_first_params shop_hits_cheap_first stored_apply spread_create_fields)
  from m(1) have "size (mset all) = 2" by simp
  then have "length all = 2" by simp
  then obtain x y where xy: "all = [x, y]"
    by (auto simp: numeral_2_eq_2 length_Suc_conv)
  with m(1) have "(x = ?a \<and> y = ?b) \<or> (x = ?b \<and> y = ?a)"
    by (auto simp: add_eq_conv_ex)
  moreover have "\<not> sorted_by (ustr ''price'') DESC [?b, ?a]"
    by (simp add: sorted_by_def stored_apply spread_create_fields wireless_mouse_def
          usb_cable_def)
  ultimately have al: "all = [?a, ?b]"
    using m(2) xy by auto
  from r(3) al have i: "items resp = [[ustr ''id'' \<mapsto> VStr (ustr ''p2'')] ++ stored usb_cable]"
    by (simp add: cheap_first_params)
  from r(4) have t: "total resp = 2"
    by (simp add: shop_hits_cheap_first)
  from r(5) t c have p: "totalPages resp = 2"
    by (simp add: cheap_first_params)
  from r(6) p have n: "hasNextPage resp = False"
    by (simp add: cheap_first_params)
  from r(7) have v: "hasPreviousPage resp = True"
    by (simp add: cheap_first_params)
  from r(1) i t p n v
  have "\<exists>resp s'.
        findAll toLowerCase_ascii shop cheap_first = (Inr resp, s')
        \<and> items resp = [[ustr ''id'' \<mapsto> VStr (ustr ''p2'')] ++ stored usb_cable]
        \<and> total resp = 2
        \<and> totalPages resp = 2
        \<and> hasNextPage resp = False
        \<and> hasPreviousPage resp = True"
    by (intro exI conjI)
  with h1 h2 h3 h4 h6 show ?thesis by blast
qed

text \<open>
  The condition on the sort field is needed: sorting by \<open>price/stock\<close>, the count
  query is sent, \<open>orderBy\<close> refuses the path, and \<open>findAll\<close> fails.
\<close>

lemma sort_path_refused:
  "listed (findAll toLowerCase_ascii shop by_unit_price)
     = Inl (InternalServerErrorException
              (ustr ''Database query error: '' @ reserved_character_message))"
  "calls (snd (findAll toLowerCase_ascii shop by_unit_price)) = [QueryGet products]"
  by code_simp+

section \<open>The name filter\<close>

text \<open>
  C2, as the claim states it, fails: the product named \<open>Wire\<close> followed by U+F900
  has a lowercase name that starts with \<open>wire\<close>, and \<open>list(name = wire)\<close> on the store
  that holds it returns no items and a total of 0.
\<close>

lemma glyph_store_facts:
  "colls glyph_store products = [(ustr ''p9'', stored wire_glyph)]" "available n glyph_store"
proof -
  from create_ok [of n store0 toLowerCase_ascii "ustr ''p9''" wire_glyph]
       store0_available [of "Suc n"]
  show "colls glyph_store products = [(ustr ''p9'', stored wire_glyph)]"
    and "available n glyph_store"
    by (auto simp: glyph_store_def stored_def store0_def)
qed

theorem prefix_not_listed_counterexample:
  "prefix (toLowerCase_ascii (ustr ''wire''))
          (toLowerCase_ascii (CreateProductDto.name wire_glyph))
   \<and> listed (findAll toLowerCase_ascii glyph_store (by_name (ustr ''wire''))) = Inr ([], 0)"
proof -
  have p: "prefix (toLowerCase_ascii (ustr ''wire''))
          (toLowerCase_ascii (CreateProductDto.name wire_glyph))"
    by (simp add: wire_glyph_def lower_examples)
  have ne: "ustr ''wire'' \<noteq> []" by (simp add: ustr_def)
  have "\<not> name_filter toLowerCase_ascii (ustr ''wire'') (stored wire_glyph)"
    by (simp add: name_filter_def stored_apply wire_glyph_def lower_examples;
       simp add: ustr_def uf8ff_def)
  then have h: "hits toLowerCase_ascii (by_name (ustr ''wire'')) glyph_store = []"
    by (simp add: hits_def glyph_store_facts selected_by_name [OF ne])
  from findAll_ok [where q = "by_name (ustr ''wire'')" and s = glyph_store and n = 0
                     and lc = toLowerCase_ascii]
       glyph_store_facts(2) [of "Suc (Suc 0)"]
  obtain s2 where
    "findAll toLowerCase_ascii glyph_store (by_name (ustr ''wire'')) =
       (Inr \<lparr>items = [], total = 0, page = 1, limit = 10,
             totalPages = Math_ceil_div 0 10, hasNextPage = (1 < Math_ceil_div 0 10),
             hasPreviousPage = False\<rparr>, s2)"
    by (auto simp: by_name_defaults h arranged_def ordered_def)
  then have "listed (findAll toLowerCase_ascii glyph_store (by_name (ustr ''wire''))) = Inr ([], 0)"
    by (simp add: listed_def)
  with p show ?thesis by simp
qed

text \<open>
  C2, amended. For a stored product whose \<open>nameSearch\<close> is the lowercase of its name
  and a non-empty filter \<open>f\<close>, the query that \<open>findAll\<close> builds for \<open>list(name = f)\<close>
  selects the product exactly when the lowercase name lies in the closed range from the
  lowercase filter to the lowercase filter followed by U+F8FF; that is, when the lowercase
  name starts with the lowercase filter and the character after the prefix, if any, is
  below U+F8FF (or is U+F8FF and the last). For a name whose characters are all below
  U+F8FF this is the case-insensitive prefix match. The product \<open>Wireless Mouse\<close> is
  listed for \<open>wire\<close> and not for \<open>mouse\<close>.
\<close>

theorem name_filter_is_range:
  assumes "d (ustr ''nameSearch'') = Some (VStr (lc n))" and "f \<noteq> []"
  shows "(list_all (holds d)
            (q_where (foldl (apply_filter lc) (collection_query products)
                        (build_filters (by_name f))))
          \<longleftrightarrow> lc f \<le> lc n \<and> lc n \<le> lc f @ [uf8ff])
       \<and> (lc f \<le> lc n \<and> lc n \<le> lc f @ [uf8ff]
          \<longleftrightarrow> prefix (lc f) (lc n)
              \<and> (case drop (length (lc f)) (lc n) of
                    [] \<Rightarrow> True
                  | c # r \<Rightarrow> c < uf8ff \<or> (c = uf8ff \<and> r = [])))
       \<and> ((\<forall>c \<in> set (lc n). c < uf8ff) \<longrightarrow>
            (list_all (holds d)
               (q_where (foldl (apply_filter lc) (collection_query products)
                           (build_filters (by_name f))))
             \<longleftrightarrow> prefix (lc f) (lc n)))"
proof -
  have a: "list_all (holds d)
            (q_where (foldl (apply_filter lc) (collection_query products)
                        (build_filters (by_name f))))
          \<longleftrightarrow> lc f \<le> lc n \<and> lc n \<le> lc f @ [uf8ff]"
    using assms by (simp add: filters_select selected_by_name name_filter_def)
  have b: "lc f \<le> lc n \<and> lc n \<le> lc f @ [uf8ff]
          \<longleftrightarrow> prefix (lc f) (lc n)
              \<and> (case drop (length (lc f)) (lc n) of
                    [] \<Rightarrow> True
                  | c # r \<Rightarrow> c < uf8ff \<or> (c = uf8ff \<and> r = []))"
    by (rule range_is_prefix)
  have c: "(\<forall>c \<in> set (lc n). c < uf8ff) \<longrightarrow>
            (list_all (holds d)
               (q_where (foldl (apply_filter lc) (collection_query products)
                           (build_filters (by_name f))))
             \<longleftrightarrow> prefix (lc f) (lc n))"
    using a b below_sentinel_tail [of "lc n" uf8ff "length (lc f)"] by blast
  from a b c show ?thesis by blast
qed

lemma shop_hits_wire:
  "hits toLowerCase_ascii (by_name (ustr ''wire'')) shop
     = [(ustr ''p1'', stored wireless_mouse), (ustr ''p3'', stored wire_basket)]"
proof -
  have ne: "ustr ''wire'' \<noteq> []" by (simp add: ustr_def)
  show ?thesis
    by (simp add: hits_def shop_facts selected_by_name [OF ne] name_filter_def stored_apply
          shop_names lower_examples;
       simp add: ustr_def uf8ff_def)
qed

lemma shop_hits_mouse:
  "hits toLowerCase_ascii (by_name (ustr ''mouse'')) shop = []"
proof -
  have ne: "ustr ''mouse'' \<noteq> []" by (simp add: ustr_def)
  show ?thesis
    by (simp add: hits_def shop_facts selected_by_name [OF ne] name_filter_def stored_apply
          shop_names lower_examples;
       simp add: ustr_def uf8ff_def)
qed

lemma shop_listed_wire:
  "listed (findAll toLowerCase_ascii shop (by_name (ustr ''wire'')))
     = Inr ([Some (VStr (ustr ''p3'')), Some (VStr (ustr ''p1''))], 2)"
proof -
  have srt: "arranged (ustr ''name'') ASC
               [(ustr ''p1'', stored wireless_mouse), (ustr ''p3'', stored wire_basket)]
             = [(ustr ''p3'', stored wire_basket), (ustr ''p1'', stored wireless_mouse)]"
    by (simp add: arranged_def ordered_def stored_apply spread_create_fields shop_names;
       simp add: ustr_def)
  from findAll_ok [where q = "by_name (ustr ''wire'')" and s = shop and n = 0
                     and lc = toLowerCase_ascii]
       shop_facts(2) [of "Suc (Suc 0)"]
  obtain s2 where
    "findAll toLowerCase_ascii shop (by_name (ustr ''wire'')) =
       (Inr \<lparr>items = [with_id (ustr ''p3'') (stored wire_basket),
                      with_id (ustr ''p1'') (stored wireless_mouse)],
             total = 2, page = 1, limit = 10,
             totalPages = Math_ceil_div 2 10, hasNextPage = (1 < Math_ceil_div 2 10),
             hasPreviousPage = False\<rparr>, s2)"
    by (auto simp: by_name_defaults shop_hits_wire srt)
  then show ?thesis
    by (simp add: listed_def with_id_def map_add_def stored_apply spread_create_fields)
qed

lemma shop_listed_mouse:
  "listed (findAll toLowerCase_ascii shop (by_name (ustr ''mouse''))) = Inr ([], 0)"
proof -
  from findAll_ok [where q = "by_name (ustr ''mouse'')" and s = shop and n = 0
                     and lc = toLowerCase_ascii]
       shop_facts(2) [of "Suc (Suc 0)"]
  obtain s2 where
    "findAll toLowerCase_ascii shop (by_name (ustr ''mouse'')) =
       (Inr \<lparr>items = [], total = 0, page = 1, limit = 10,
             totalPages = Math_ceil_div 0 10, hasNextPage = (1 < Math_ceil_div 0 10),
             hasPreviousPage = False\<rparr>, s2)"
    by (auto simp: by_name_defaults shop_hits_mouse arranged_def ordered_def)
  then show ?thesis by (simp add: listed_def)
qed

theorem name_filter_is_range_witness:
  "stored wireless_mouse (ustr ''nameSearch'')
     = Some (VStr (toLowerCase_ascii (ustr ''Wireless Mouse'')))
   \<and> ustr ''wire'' \<noteq> [] \<and> ustr ''mouse'' \<noteq> []
   \<and> list_all (\<lambda>c. c < uf8ff) (toLowerCase_ascii (ustr ''Wireless Mouse''))
   \<and> list_all (holds (stored wireless_mouse))
        (q_where (foldl (apply_filter toLowerCase_ascii) (collection_query products)
                    (build_filters (by_name (ustr ''wire'')))))
   \<and> \<not> list_all (holds (stored wireless_mouse))
        (q_where (foldl (apply_filter toLowerCase_ascii) (collection_query products)
                    (build_filters (by_name (ustr ''mouse'')))))
   \<and> listed (findAll toLowerCase_ascii shop (by_name (ustr ''wire'')))
       = Inr ([Some (VStr (ustr ''p3'')), Some (VStr (ustr ''p1''))], 2)
   \<and> listed (findAll toLowerCase_ascii shop (by_name (ustr ''mouse''))) = Inr ([], 0)"
proof -
  have h1: "stored wireless_mouse (ustr ''nameSearch'')
     = Some (VStr (toLowerCase_ascii (ustr ''Wireless Mouse'')))"
    by (simp add: stored_apply shop_names)
  have h2: "ustr ''wire'' \<noteq> []" "ustr ''mouse'' \<noteq> []" by (simp_all add: ustr_def)
  have h3: "\<forall>c \<in> set (toLowerCase_ascii (ustr ''Wireless Mouse'')). c < uf8ff"
    by (simp add: lower_examples; simp add: ustr_def uf8ff_def)
  have p1: "prefix (toLowerCase_ascii (ustr ''wire''))
              (toLowerCase_ascii (ustr ''Wireless Mouse''))"
    by (simp add: lower_examples; simp add: ustr_def)
  have p2: "\<not> prefix (toLowerCase_ascii (ustr ''mouse''))
              (toLowerCase_ascii (ustr ''Wireless Mouse''))"
    by (simp add: lower_examples; simp add: ustr_def)
  from name_filter_is_range [where lc = toLowerCase_ascii and n = "ustr ''Wireless Mouse''"
         and d = "stored wireless_mouse" and f = "ustr ''wire''", OF h1 h2(1)] h3 p1
  have a: "list_all (holds (stored wireless_mouse))
        (q_where (foldl (apply_filter toLowerCase_ascii) (collection_query products)
                    (build_filters (by_name (ustr ''wire'')))))"
    by blast
  from name_filter_is_range [where lc = toLowerCase_ascii and n = "ustr ''Wireless Mouse''"
         and d = "stored wireless_mouse" and f = "ustr ''mouse''", OF h1 h2(2)] h3 p2
  have b: "\<not> list_all (holds (stored wireless_mouse))
        (q_where (foldl (apply_filter toLowerCase_ascii) (collection_query products)
                    (build_filters (by_name (ustr ''mouse'')))))"
    by blast
  from h3 have h3': "list_all (\<lambda>c. c < uf8ff) (toLowerCase_ascii (ustr ''Wireless Mouse''))"
    by (simp add: list_all_iff)
  from h1 h2 h3' a b shop_listed_wire shop_listed_mouse show ?thesis by blast
qed


end
